theory Spec2Isabelle
  imports Complex_Main "HOL-Library.Multiset"
begin

section \<open>Task routes (backend/routes/tasks.js)\<close>

subsection \<open>Documents\<close>

text \<open>
  Identifiers are the ObjectIds the store assigns. The \<open>:id\<close> path parameter arrives as
  a string; the queries cast it to an ObjectId and throw a CastError when that is not
  possible, which the handlers' \<open>catch\<close> turns into status 500. The store itself is
  taken to be reachable: a lost connection is not among the failures modelled.
\<close>

type_synonym user_id = nat
type_synonym task_id = nat

datatype id_param = WellFormed task_id | Malformed

datatype status = Todo | InProgress | Done
datatype priority = Low | Medium | High

record task =
  task_id :: task_id
  user :: user_id
  title :: string
  description :: "string option"
  status :: status
  priority :: priority
  dueDate :: "string option"
  tags :: "string list"
  createdAt :: nat
  updatedAt :: nat

text \<open>The collection in insertion order, the next ObjectId and a logical clock for the timestamps.\<close>

record task_db =
  tasks :: "task list"
  next_oid :: nat
  now :: nat

fun string_of_status :: "status \<Rightarrow> string" where
  "string_of_status Todo = ''todo''"
| "string_of_status InProgress = ''in-progress''"
| "string_of_status Done = ''done''"

fun string_of_priority :: "priority \<Rightarrow> string" where
  "string_of_priority Low = ''low''"
| "string_of_priority Medium = ''medium''"
| "string_of_priority High = ''high''"

definition status_of_string :: "string \<Rightarrow> status option" where
  "status_of_string s =
     (if s = ''todo'' then Some Todo
      else if s = ''in-progress'' then Some InProgress
      else if s = ''done'' then Some Done
      else None)"

definition priority_of_string :: "string \<Rightarrow> priority option" where
  "priority_of_string s =
     (if s = ''low'' then Some Low
      else if s = ''medium'' then Some Medium
      else if s = ''high'' then Some High
      else None)"

subsection \<open>Requests and responses\<close>

text \<open>
  A JSON request body for the task routes, one optional entry per key the handlers or the
  store look at. \<open>b_user\<close> is a client-supplied \<open>user\<close> key.
\<close>

datatype tags_value = TagsArray "string list" | TagsOther

record task_body =
  b_user :: "user_id option"
  b_title :: "string option"
  b_description :: "string option"
  b_status :: "string option"
  b_priority :: "string option"
  b_dueDate :: "string option"
  b_tags :: "tags_value option"

text \<open>
  The query string of \<open>GET /\<close>. \<open>page\<close> and \<open>limit\<close> are the integers their strings
  denote (the handler computes with them as numbers).
\<close>

record list_query =
  q_status :: "string option"
  q_priority :: "string option"
  q_search :: "string option"
  q_page :: "int option"
  q_limit :: "int option"
  q_sortBy :: "string option"
  q_order :: "string option"

record pagination =
  pg_total :: nat
  pg_page :: int
  pg_pages :: "int option"
  pg_limit :: int

record summary =
  s_todo :: nat
  s_in_progress :: nat
  s_done :: nat
  s_total :: nat

record priority_counts =
  p_low :: nat
  p_medium :: nat
  p_high :: nat

datatype payload =
    TaskList "task list" pagination
  | TaskPayload task
  | Message string
  | Stats summary priority_counts
  | Error string
  | Errors "(string \<times> string) list"

text \<open>
  \<open>Respond code payload\<close> is \<open>res.status(code).json(payload)\<close>. \<open>Unhandled\<close> is an
  exception that leaves the async handler: no response is written.
\<close>

datatype response = Respond nat payload | Unhandled

text \<open>
  A string is the list of its characters, a character being a code unit below 256;
  \<open>length\<close> is what the library's \<open>isLength\<close> counts on such a string.

  What the handlers use and the sources do not contain is a parameter. Of the
  validation library: its \<open>trim\<close> sanitizer and its ISO-8601 test. The
  regular-expression engine (\<open>None\<close> is a SyntaxError; the result is the
  case-insensitive, unanchored match). The validators of the Task schema
  (models/Task.js), run by \<open>Task.create\<close> on the new document and by
  \<open>findOneAndUpdate\<close> with \<open>runValidators\<close> on the update. Of the store: the order
  it gives the documents for a sort key other than the scalar paths spelled out
  below (\<open>None\<close>: it refuses the key), and what it returns for a page or a page size
  outside the range in which the handler's arithmetic is exact (\<open>None\<close>: it fails).
\<close>

record task_update =
  u_user :: "user_id option"
  u_title :: "string option"
  u_description :: "string option"
  u_status :: "status option"
  u_priority :: "priority option"
  u_dueDate :: "string option"
  u_tags :: "string list option"

record validator =
  trim :: "string \<Rightarrow> string"

record task_env = validator +
  isISO8601 :: "string \<Rightarrow> bool"
  regexCompile :: "string \<Rightarrow> (string \<Rightarrow> bool) option"
  schemaValidate :: "task \<Rightarrow> bool"
  schemaValidateUpdate :: "task_update \<Rightarrow> bool"
  sortOther :: "string \<Rightarrow> string \<Rightarrow> task list \<Rightarrow> task list option"
  inexact :: "list_query \<Rightarrow> task list \<Rightarrow> (task list \<times> pagination) option"

subsection \<open>Validation chains\<close>

definition isIn :: "string list \<Rightarrow> string \<Rightarrow> bool" where
  "isIn allowed s = (s \<in> set allowed)"

definition check :: "bool \<Rightarrow> string \<Rightarrow> string \<Rightarrow> (string \<times> string) list" where
  "check ok field msg = (if ok then [] else [(field, msg)])"

definition optional :: "'a option \<Rightarrow> ('a \<Rightarrow> (string \<times> string) list) \<Rightarrow> (string \<times> string) list" where
  "optional v chain = (case v of None \<Rightarrow> [] | Some x \<Rightarrow> chain x)"

definition is_array :: "tags_value \<Rightarrow> bool" where
  "is_array v = (case v of TagsArray _ \<Rightarrow> True | TagsOther \<Rightarrow> False)"

text \<open>The chains of \<open>POST /\<close> (lines 69-79); a missing title is validated as the empty string, which
  \<open>trim()\<close> leaves empty.\<close>

definition validate_create :: "task_env \<Rightarrow> task_body \<Rightarrow> (string \<times> string) list" where
  "validate_create env b =
     (let t = (case b_title b of None \<Rightarrow> [] | Some s \<Rightarrow> trim env s) in
        check (t \<noteq> []) ''title'' ''Title is required''
      @ check (length t \<le> 100) ''title'' ''Title cannot exceed 100 characters'')
   @ optional (b_description b) (\<lambda>d. check (length (trim env d) \<le> 500) ''description'' ''Invalid value'')
   @ optional (b_status b) (\<lambda>s. check (isIn [''todo'', ''in-progress'', ''done''] s) ''status'' ''Invalid value'')
   @ optional (b_priority b) (\<lambda>p. check (isIn [''low'', ''medium'', ''high''] p) ''priority'' ''Invalid value'')
   @ optional (b_dueDate b) (\<lambda>d. check (isISO8601 env d) ''dueDate'' ''Invalid date format'')
   @ optional (b_tags b) (\<lambda>v. check (is_array v) ''tags'' ''Invalid value'')"

text \<open>The chains of \<open>PUT /:id\<close> (lines 122-129).\<close>

definition validate_update :: "task_env \<Rightarrow> task_body \<Rightarrow> (string \<times> string) list" where
  "validate_update env b =
     optional (b_title b) (\<lambda>s. check (1 \<le> length (trim env s) \<and> length (trim env s) \<le> 100) ''title'' ''Invalid value'')
   @ optional (b_description b) (\<lambda>d. check (length (trim env d) \<le> 500) ''description'' ''Invalid value'')
   @ optional (b_status b) (\<lambda>s. check (isIn [''todo'', ''in-progress'', ''done''] s) ''status'' ''Invalid value'')
   @ optional (b_priority b) (\<lambda>p. check (isIn [''low'', ''medium'', ''high''] p) ''priority'' ''Invalid value'')
   @ optional (b_dueDate b) (\<lambda>d. check (isISO8601 env d) ''dueDate'' ''Invalid value'')
   @ optional (b_tags b) (\<lambda>v. check (is_array v) ''tags'' ''Invalid value'')"

text \<open>The sanitizers of both chains write the trimmed title and description back to \<open>req.body\<close>.\<close>

definition sanitize_body :: "task_env \<Rightarrow> task_body \<Rightarrow> task_body" where
  "sanitize_body env b =
     b\<lparr>b_title := map_option (trim env) (b_title b),
       b_description := map_option (trim env) (b_description b)\<rparr>"

text \<open>
  The store casts the body to the schema's types; a status or priority outside the enum
  and a tags value that is no array are rejected there (\<open>None\<close>).
\<close>

definition cast_enum :: "(string \<Rightarrow> 'a option) \<Rightarrow> string option \<Rightarrow> 'a option option" where
  "cast_enum parse v =
     (case v of
        None \<Rightarrow> Some None
      | Some s \<Rightarrow> (case parse s of None \<Rightarrow> None | Some x \<Rightarrow> Some (Some x)))"

definition cast_tags :: "tags_value option \<Rightarrow> string list option option" where
  "cast_tags v =
     (case v of
        None \<Rightarrow> Some None
      | Some (TagsArray ts) \<Rightarrow> Some (Some ts)
      | Some TagsOther \<Rightarrow> None)"

definition cast_body :: "task_body \<Rightarrow> task_update option" where
  "cast_body b =
     (case cast_enum status_of_string (b_status b) of
        None \<Rightarrow> None
      | Some s \<Rightarrow>
     (case cast_enum priority_of_string (b_priority b) of
        None \<Rightarrow> None
      | Some p \<Rightarrow>
     (case cast_tags (b_tags b) of
        None \<Rightarrow> None
      | Some ts \<Rightarrow>
          Some \<lparr>u_user = b_user b, u_title = b_title b, u_description = b_description b,
                u_status = s, u_priority = p, u_dueDate = b_dueDate b, u_tags = ts\<rparr>)))"

subsection \<open>Store operations\<close>

text \<open>\<open>findOne\<close>, \<open>findOneAndUpdate\<close> and \<open>findOneAndDelete\<close> act on the first matching document.\<close>

definition owned_by :: "user_id \<Rightarrow> task_id \<Rightarrow> task \<Rightarrow> bool" where
  "owned_by u i t = (task_id t = i \<and> user t = u)"

fun update_first :: "('a \<Rightarrow> bool) \<Rightarrow> ('a \<Rightarrow> 'a) \<Rightarrow> 'a list \<Rightarrow> 'a list" where
  "update_first P f [] = []"
| "update_first P f (x # xs) = (if P x then f x # xs else x # update_first P f xs)"

fun delete_first :: "('a \<Rightarrow> bool) \<Rightarrow> 'a list \<Rightarrow> 'a list" where
  "delete_first P [] = []"
| "delete_first P (x # xs) = (if P x then xs else x # delete_first P xs)"

text \<open>
  An update object sets every path it supplies (\<open>$set\<close>) and leaves the others; the
  specification has the same for the store's update: "only supplied fields are modified".
\<close>

definition apply_update :: "task_update \<Rightarrow> nat \<Rightarrow> task \<Rightarrow> task" where
  "apply_update up clock t =
     t\<lparr>user := (case u_user up of None \<Rightarrow> user t | Some v \<Rightarrow> v),
       title := (case u_title up of None \<Rightarrow> title t | Some v \<Rightarrow> v),
       description := (case u_description up of None \<Rightarrow> description t | Some v \<Rightarrow> Some v),
       status := (case u_status up of None \<Rightarrow> status t | Some v \<Rightarrow> v),
       priority := (case u_priority up of None \<Rightarrow> priority t | Some v \<Rightarrow> v),
       dueDate := (case u_dueDate up of None \<Rightarrow> dueDate t | Some v \<Rightarrow> Some v),
       tags := (case u_tags up of None \<Rightarrow> tags t | Some v \<Rightarrow> v),
       updatedAt := clock\<rparr>"

text \<open>
  Modelled from the spec: the Task schema (models/Task.js is not among the sources):
  owner and title are required, status defaults to todo, priority to medium,
  description and due date are optional, the tag set starts empty; the store assigns
  the identifier and both timestamps. \<open>Task.create\<close> throws (\<open>None\<close>) when the
  schema rejects the document.
\<close>

definition Task_create :: "task_env \<Rightarrow> task_db \<Rightarrow> task_update \<Rightarrow> (task_db \<times> task) option" where
  "Task_create env db up =
     (case (u_user up, u_title up) of
        (Some owner, Some ti) \<Rightarrow>
          (let doc = \<lparr>task_id = next_oid db, user = owner, title = ti,
                      description = u_description up,
                      status = (case u_status up of None \<Rightarrow> Todo | Some v \<Rightarrow> v),
                      priority = (case u_priority up of None \<Rightarrow> Medium | Some v \<Rightarrow> v),
                      dueDate = u_dueDate up,
                      tags = (case u_tags up of None \<Rightarrow> [] | Some v \<Rightarrow> v),
                      createdAt = now db, updatedAt = now db\<rparr>
           in if schemaValidate env doc
              then Some (db\<lparr>tasks := tasks db @ [doc], next_oid := Suc (next_oid db), now := Suc (now db)\<rparr>, doc)
              else None)
      | _ \<Rightarrow> None)"

subsection \<open>Filtering, sorting and paging of \<open>GET /\<close>\<close>

record task_filter =
  f_user :: user_id
  f_status :: "string option"
  f_priority :: "string option"
  f_search :: "(string \<Rightarrow> bool) option"

definition truthy :: "string option \<Rightarrow> string option" where
  "truthy v = (case v of None \<Rightarrow> None | Some s \<Rightarrow> if s = [] then None else Some s)"

text \<open>
  Lines 26-35. \<open>new RegExp(search, 'i')\<close> throws on a pattern that does not compile;
  the result is then \<open>None\<close>.
\<close>

definition build_filter :: "task_env \<Rightarrow> user_id \<Rightarrow> list_query \<Rightarrow> task_filter option" where
  "build_filter env u q =
     (let flt = \<lparr>f_user = u, f_status = truthy (q_status q), f_priority = truthy (q_priority q),
                 f_search = None\<rparr>
      in case truthy (map_option (trim env) (q_search q)) of
           None \<Rightarrow> Some flt
         | Some search \<Rightarrow>
             (case regexCompile env search of
                None \<Rightarrow> None
              | Some m \<Rightarrow> Some (flt\<lparr>f_search := Some m\<rparr>)))"

definition matches :: "task_filter \<Rightarrow> task \<Rightarrow> bool" where
  "matches flt t =
     (user t = f_user flt
      \<and> (case f_status flt of None \<Rightarrow> True | Some s \<Rightarrow> string_of_status (status t) = s)
      \<and> (case f_priority flt of None \<Rightarrow> True | Some p \<Rightarrow> string_of_priority (priority t) = p)
      \<and> (case f_search flt of
            None \<Rightarrow> True
          | Some m \<Rightarrow>
              m (title t)
              \<or> (case description t of None \<Rightarrow> False | Some d \<Rightarrow> m d)
              \<or> list_ex m (tags t)))"

text \<open>
  The scalar paths of a task a list can be sorted by, and the value of each. Values of
  different kinds compare null, then numbers, then strings; strings by character code.
\<close>

datatype sort_field =
  ByCreatedAt | ByDueDate | ByPriority | ByTitle | ByUpdatedAt | ByStatus | ByDescription | ById | ByUser

definition sort_field_of :: "string \<Rightarrow> sort_field option" where
  "sort_field_of sortBy =
     map_of [(''createdAt'', ByCreatedAt), (''dueDate'', ByDueDate), (''priority'', ByPriority),
             (''title'', ByTitle), (''updatedAt'', ByUpdatedAt), (''status'', ByStatus),
             (''description'', ByDescription), (''_id'', ById), (''user'', ByUser)] sortBy"

datatype sort_val = VNull | VNum nat | VStr string

fun str_less :: "string \<Rightarrow> string \<Rightarrow> bool" where
  "str_less [] [] = False"
| "str_less [] (y # ys) = True"
| "str_less (x # xs) [] = False"
| "str_less (x # xs) (y # ys) =
     ((of_char x :: nat) < of_char y \<or> (x = y \<and> str_less xs ys))"

fun val_less :: "sort_val \<Rightarrow> sort_val \<Rightarrow> bool" where
  "val_less VNull VNull = False"
| "val_less VNull _ = True"
| "val_less (VNum a) (VNum b) = (a < b)"
| "val_less (VNum a) (VStr b) = True"
| "val_less (VStr a) (VStr b) = str_less a b"
| "val_less _ _ = False"

definition opt_val :: "string option \<Rightarrow> sort_val" where
  "opt_val v = (case v of None \<Rightarrow> VNull | Some s \<Rightarrow> VStr s)"

fun sort_key :: "sort_field \<Rightarrow> task \<Rightarrow> sort_val" where
  "sort_key ByCreatedAt t = VNum (createdAt t)"
| "sort_key ByDueDate t = opt_val (dueDate t)"
| "sort_key ByPriority t = VStr (string_of_priority (priority t))"
| "sort_key ByTitle t = VStr (title t)"
| "sort_key ByUpdatedAt t = VNum (updatedAt t)"
| "sort_key ByStatus t = VStr (string_of_status (status t))"
| "sort_key ByDescription t = opt_val (description t)"
| "sort_key ById t = VNum (task_id t)"
| "sort_key ByUser t = VNum (user t)"

text \<open>
  Documents with equal keys keep their insertion order, in both directions (the
  specification: "ordering ties are broken by insertion order").
\<close>

fun insort_by :: "('a \<Rightarrow> 'a \<Rightarrow> bool) \<Rightarrow> 'a \<Rightarrow> 'a list \<Rightarrow> 'a list" where
  "insort_by prec x [] = [x]"
| "insort_by prec x (y # ys) =
     (if prec y x then y # insort_by prec x ys else x # y # ys)"

definition sort_by :: "('a \<Rightarrow> 'a \<Rightarrow> bool) \<Rightarrow> 'a list \<Rightarrow> 'a list" where
  "sort_by prec xs = foldr (insort_by prec) xs []"

text \<open>
  \<open>.sort({[sortBy]: sortOrder})\<close>, with \<open>sortOrder\<close> 1 for \<open>asc\<close> and -1 for anything
  else. For any other key (the empty one, a path into the tags, an operator) the
  answer is the store's.
\<close>

definition sort_tasks :: "task_env \<Rightarrow> string \<Rightarrow> string \<Rightarrow> task list \<Rightarrow> task list option" where
  "sort_tasks env sortBy order' ts =
     (case sort_field_of sortBy of
        None \<Rightarrow> sortOther env sortBy order' ts
      | Some f \<Rightarrow>
          Some (if order' = ''asc''
                then sort_by (\<lambda>a b. val_less (sort_key f a) (sort_key f b)) ts
                else sort_by (\<lambda>a b. val_less (sort_key f b) (sort_key f a)) ts))"

text \<open>\<open>.limit(n)\<close>: zero is no limit, a negative number limits to its absolute value.\<close>

definition limit_docs :: "int \<Rightarrow> 'a list \<Rightarrow> 'a list" where
  "limit_docs n xs = (if n = 0 then xs else take (nat \<bar>n\<bar>) xs)"

text \<open>
  \<open>Math.ceil(total / limit)\<close>; with \<open>limit = 0\<close> the quotient is Infinity or NaN, which
  JSON writes as null.
\<close>

definition ceil_div :: "nat \<Rightarrow> int \<Rightarrow> int option" where
  "ceil_div n d = (if d = 0 then None else Some (- ((- int n) div d)))"

definition find_tasks :: "task_filter \<Rightarrow> task_db \<Rightarrow> task list" where
  "find_tasks flt db = filter (matches flt) (tasks db)"

subsection \<open>Handlers\<close>

text \<open>
  JavaScript computes with integers exactly as long as they stay below \<open>2^53\<close> in
  absolute value; outside this range the answer is the platform's (\<open>inexact\<close>). The
  number of documents in a store is taken to be within the range.
\<close>

definition safe_int :: "int \<Rightarrow> bool" where
  "safe_int n = (- (2 ^ 53) < n \<and> n < 2 ^ 53)"

text \<open>
  \<open>GET /\<close> (lines 22-60). The handler never reads \<open>validationResult(req)\<close>; of the
  chains at lines 14-20 only the \<open>trim\<close> sanitizer of \<open>search\<close> has an effect. The
  filter is built before the \<open>try\<close> block. Inside it, a negative \<open>skip\<close> and a sort
  key the store refuses make the query throw, which the \<open>catch\<close> answers with 500.
\<close>

definition list_tasks :: "task_env \<Rightarrow> task_db \<Rightarrow> user_id \<Rightarrow> list_query \<Rightarrow> response" where
  "list_tasks env db u q =
     (let page = (case q_page q of None \<Rightarrow> 1 | Some p \<Rightarrow> p);
          limit' = (case q_limit q of None \<Rightarrow> 10 | Some l \<Rightarrow> l);
          sortBy = (case q_sortBy q of None \<Rightarrow> ''createdAt'' | Some s \<Rightarrow> s);
          order' = (case q_order q of None \<Rightarrow> ''desc'' | Some s \<Rightarrow> s)
      in case build_filter env u q of
           None \<Rightarrow> Unhandled
         | Some flt \<Rightarrow>
             (let total' = length (find_tasks flt db);
                  skip = (page - 1) * limit'
              in if \<not> (safe_int page \<and> safe_int limit' \<and> safe_int skip)
                 then (case inexact env q (find_tasks flt db) of
                         None \<Rightarrow> Respond 500 (Error ''Failed to fetch tasks.'')
                       | Some (docs, pg) \<Rightarrow> Respond 200 (TaskList docs pg))
                 else if skip < 0 then Respond 500 (Error ''Failed to fetch tasks.'')
                 else (case sort_tasks env sortBy order' (find_tasks flt db) of
                         None \<Rightarrow> Respond 500 (Error ''Failed to fetch tasks.'')
                       | Some docs \<Rightarrow>
                           Respond 200
                             (TaskList (limit_docs limit' (drop (nat skip) docs))
                                \<lparr>pg_total = total', pg_page = page, pg_pages = ceil_div total' limit',
                                 pg_limit = limit'\<rparr>))))"

text \<open>\<open>POST /\<close> (lines 80-98): \<open>{...req.body, user: req.user._id}\<close> overrides a \<open>user\<close> key of the body.\<close>

definition post_task :: "task_env \<Rightarrow> task_db \<Rightarrow> user_id \<Rightarrow> task_body \<Rightarrow> task_db \<times> response" where
  "post_task env db u b =
     (let errors = validate_create env b in
      if errors \<noteq> [] then (db, Respond 400 (Errors errors))
      else case cast_body (sanitize_body env b) of
             None \<Rightarrow> (db, Respond 500 (Error ''Failed to create task.''))
           | Some up \<Rightarrow>
               (case Task_create env db (up\<lparr>u_user := Some u\<rparr>) of
                  None \<Rightarrow> (db, Respond 500 (Error ''Failed to create task.''))
                | Some (db', doc) \<Rightarrow> (db', Respond 201 (TaskPayload doc))))"

text \<open>\<open>GET /:id\<close> (lines 104-114).\<close>

definition get_task :: "task_db \<Rightarrow> user_id \<Rightarrow> id_param \<Rightarrow> response" where
  "get_task db u idp =
     (case idp of
        Malformed \<Rightarrow> Respond 500 (Error ''Failed to fetch task.'')
      | WellFormed i \<Rightarrow>
          (case find (owned_by u i) (tasks db) of
             None \<Rightarrow> Respond 404 (Error ''Task not found.'')
           | Some t \<Rightarrow> Respond 200 (TaskPayload t)))"

text \<open>
  \<open>PUT /:id\<close> (lines 130-152): the sanitized body is the update object as it is. The
  update is cast and validated before the query runs.
\<close>

definition put_task :: "task_env \<Rightarrow> task_db \<Rightarrow> user_id \<Rightarrow> id_param \<Rightarrow> task_body \<Rightarrow> task_db \<times> response" where
  "put_task env db u idp b =
     (let errors = validate_update env b in
      if errors \<noteq> [] then (db, Respond 400 (Errors errors))
      else case idp of
             Malformed \<Rightarrow> (db, Respond 500 (Error ''Failed to update task.''))
           | WellFormed i \<Rightarrow>
               (case cast_body (sanitize_body env b) of
                  None \<Rightarrow> (db, Respond 500 (Error ''Failed to update task.''))
                | Some up \<Rightarrow>
                    if \<not> schemaValidateUpdate env up
                    then (db, Respond 500 (Error ''Failed to update task.''))
                    else (case find (owned_by u i) (tasks db) of
                            None \<Rightarrow> (db, Respond 404 (Error ''Task not found.''))
                          | Some t \<Rightarrow>
                              (db\<lparr>tasks := update_first (owned_by u i) (apply_update up (now db)) (tasks db),
                                  now := Suc (now db)\<rparr>,
                               Respond 200 (TaskPayload (apply_update up (now db) t))))))"

text \<open>\<open>DELETE /:id\<close> (lines 158-168).\<close>

definition delete_task :: "task_db \<Rightarrow> user_id \<Rightarrow> id_param \<Rightarrow> task_db \<times> response" where
  "delete_task db u idp =
     (case idp of
        Malformed \<Rightarrow> (db, Respond 500 (Error ''Failed to delete task.''))
      | WellFormed i \<Rightarrow>
          (case find (owned_by u i) (tasks db) of
             None \<Rightarrow> (db, Respond 404 (Error ''Task not found.''))
           | Some t \<Rightarrow>
               (db\<lparr>tasks := delete_first (owned_by u i) (tasks db)\<rparr>,
                Respond 200 (Message ''Task deleted successfully.''))))"

text \<open>
  \<open>GET /stats/summary\<close> (lines 173-203). \<open>$group\<close> with \<open>$sum: 1\<close> yields one entry per
  value that occurs, with the number of its occurrences.
\<close>

fun bump :: "'a \<Rightarrow> ('a \<times> nat) list \<Rightarrow> ('a \<times> nat) list" where
  "bump k [] = [(k, 1)]"
| "bump k ((k', c) # gs) = (if k = k' then (k', Suc c) # gs else (k', c) # bump k gs)"

definition group_count :: "'a list \<Rightarrow> ('a \<times> nat) list" where
  "group_count ks = fold bump ks []"

definition aggregate :: "task_db \<Rightarrow> user_id \<Rightarrow> (task \<Rightarrow> 'a) \<Rightarrow> ('a \<times> nat) list" where
  "aggregate db u key = group_count (map key (filter (\<lambda>t. user t = u) (tasks db)))"

fun set_status :: "status \<Rightarrow> nat \<Rightarrow> summary \<Rightarrow> summary" where
  "set_status Todo c s = s\<lparr>s_todo := c\<rparr>"
| "set_status InProgress c s = s\<lparr>s_in_progress := c\<rparr>"
| "set_status Done c s = s\<lparr>s_done := c\<rparr>"

fun set_priority :: "priority \<Rightarrow> nat \<Rightarrow> priority_counts \<Rightarrow> priority_counts" where
  "set_priority Low c p = p\<lparr>p_low := c\<rparr>"
| "set_priority Medium c p = p\<lparr>p_medium := c\<rparr>"
| "set_priority High c p = p\<lparr>p_high := c\<rparr>"

definition summarise :: "(status \<times> nat) list \<Rightarrow> summary" where
  "summarise stats =
     fold (\<lambda>(k, c) s. (set_status k c s)\<lparr>s_total := s_total (set_status k c s) + c\<rparr>) stats
       \<lparr>s_todo = 0, s_in_progress = 0, s_done = 0, s_total = 0\<rparr>"

definition summarise_priority :: "(priority \<times> nat) list \<Rightarrow> priority_counts" where
  "summarise_priority stats =
     fold (\<lambda>(k, c) p. set_priority k c p) stats \<lparr>p_low = 0, p_medium = 0, p_high = 0\<rparr>"

definition stats_summary :: "task_db \<Rightarrow> user_id \<Rightarrow> response" where
  "stats_summary db u =
     Respond 200 (Stats (summarise (aggregate db u status)) (summarise_priority (aggregate db u priority)))"

text \<open>A list request without any query parameter.\<close>

definition unfiltered :: list_query where
  "unfiltered = \<lparr>q_status = None, q_priority = None, q_search = None, q_page = None,
                  q_limit = None, q_sortBy = None, q_order = None\<rparr>"


text \<open>The documents of a list response.\<close>

definition tasks_of :: "response \<Rightarrow> task list" where
  "tasks_of r = (case r of Respond _ (TaskList ts _) \<Rightarrow> ts | _ \<Rightarrow> [])"

subsection \<open>The filter, as the specification words it\<close>

text \<open>
  "filter = {status?, priority?, searchText?, ...}. Search text matches against
  title, description, or any tag (logical OR)": the tasks of the owner with the given
  status, the given priority and a match \<open>m\<close> of the search text in one of the three
  fields. A parameter that is absent or empty (the search text: empty once trimmed)
  does not restrict.
\<close>

definition selects :: "task_env \<Rightarrow> (string \<Rightarrow> bool) \<Rightarrow> user_id \<Rightarrow> list_query \<Rightarrow> task \<Rightarrow> bool" where
  "selects env m u q t =
     (user t = u
      \<and> (case q_status q of None \<Rightarrow> True | Some s \<Rightarrow> s = [] \<or> string_of_status (status t) = s)
      \<and> (case q_priority q of None \<Rightarrow> True | Some p \<Rightarrow> p = [] \<or> string_of_priority (priority t) = p)
      \<and> (case q_search q of
            None \<Rightarrow> True
          | Some s \<Rightarrow>
              trim env s = [] \<or> m (title t)
              \<or> (case description t of None \<Rightarrow> False | Some d \<Rightarrow> m d)
              \<or> list_ex m (tags t)))"

subsection \<open>Literal search, as the specification words it\<close>

text \<open>
  "Search text matches case-insensitively against title, description, or any tag":
  the search text occurs in the field, letter case apart.
\<close>

definition lower :: "char \<Rightarrow> char" where
  "lower c =
     (case map_of (zip ''ABCDEFGHIJKLMNOPQRSTUVWXYZ'' ''abcdefghijklmnopqrstuvwxyz'') c of
        None \<Rightarrow> c
      | Some d \<Rightarrow> d)"

fun starts_with :: "string \<Rightarrow> string \<Rightarrow> bool" where
  "starts_with [] s = True"
| "starts_with (p # ps) [] = False"
| "starts_with (p # ps) (c # cs) = (p = c \<and> starts_with ps cs)"

fun contains :: "string \<Rightarrow> string \<Rightarrow> bool" where
  "contains p [] = starts_with p []"
| "contains p (c # cs) = (starts_with p (c # cs) \<or> contains p cs)"

definition literal_search :: "string \<Rightarrow> string \<Rightarrow> bool" where
  "literal_search needle s = contains (map lower needle) (map lower s)"

definition literal_matches :: "string \<Rightarrow> task \<Rightarrow> bool" where
  "literal_matches needle t =
     (literal_search needle (title t)
      \<or> (case description t of None \<Rightarrow> False | Some d \<Rightarrow> literal_search needle d)
      \<or> list_ex (literal_search needle) (tags t))"

subsection \<open>A regular-expression engine for the examples\<close>

text \<open>
  A fragment of the pattern language: a pattern is a sequence of literal characters
  and \<open>.\<close>, each optionally followed by \<open>*\<close> or \<open>+\<close>; matching ignores letter case
  and is unanchored. A quantifier with nothing to repeat and an unbalanced bracket do
  not compile; the other constructs are outside the fragment and refused as well.
\<close>

datatype re_atom = Lit char | AnyChar
datatype re_item = One re_atom | Star re_atom | Plus re_atom

definition is_meta :: "char \<Rightarrow> bool" where
  "is_meta c = (c \<in> set (CHR 0x5C # ''()[]{}|^$*+?''))"

fun parse_re :: "string \<Rightarrow> re_item list option" where
  "parse_re [] = Some []"
| "parse_re (c # cs) =
     (if is_meta c then None
      else let a = (if c = CHR ''.'' then AnyChar else Lit (lower c)) in
        case cs of
          [] \<Rightarrow> Some [One a]
        | q # r \<Rightarrow>
            if q = CHR ''*'' then map_option ((#) (Star a)) (parse_re r)
            else if q = CHR ''+'' then map_option ((#) (Plus a)) (parse_re r)
            else map_option ((#) (One a)) (parse_re cs))"

fun atom_ok :: "re_atom \<Rightarrow> char \<Rightarrow> bool" where
  "atom_ok (Lit a) c = (a = lower c)"
| "atom_ok AnyChar c = (c \<notin> set [CHR 0x0A, CHR 0x0D])"

fun match_here :: "re_item list \<Rightarrow> string \<Rightarrow> bool" where
  "match_here [] s = True"
| "match_here (One a # r) [] = False"
| "match_here (One a # r) (c # cs) = (atom_ok a c \<and> match_here r cs)"
| "match_here (Star a # r) [] = match_here r []"
| "match_here (Star a # r) (c # cs) = (match_here r (c # cs) \<or> (atom_ok a c \<and> match_here (Star a # r) cs))"
| "match_here (Plus a # r) [] = False"
| "match_here (Plus a # r) (c # cs) = (atom_ok a c \<and> match_here (Star a # r) cs)"

fun search_re :: "re_item list \<Rightarrow> string \<Rightarrow> bool" where
  "search_re r [] = match_here r []"
| "search_re r (c # cs) = (match_here r (c # cs) \<or> search_re r cs)"

definition example_regex :: "string \<Rightarrow> (string \<Rightarrow> bool) option" where
  "example_regex pat = map_option search_re (parse_re pat)"


subsection \<open>Example data\<close>

text \<open>
  The library's \<open>trim\<close> on strings of characters below 256: it removes the white space
  of JavaScript at both ends, which in this range is the tab, the line feed, the
  vertical tab, the form feed, the carriage return, the space and the no-break space.
\<close>

definition is_space :: "char \<Rightarrow> bool" where
  "is_space c = (c \<in> set [CHR 0x09, CHR 0x0A, CHR 0x0B, CHR 0x0C, CHR 0x0D, CHR 0x20, CHR 0xA0])"

definition trim_spaces :: "string \<Rightarrow> string" where
  "trim_spaces s = rev (dropWhile is_space (rev (dropWhile is_space s)))"

definition example_task :: "task_id \<Rightarrow> user_id \<Rightarrow> string \<Rightarrow> status \<Rightarrow> priority \<Rightarrow> task" where
  "example_task i u ti st pr =
     \<lparr>task_id = i, user = u, title = ti, description = None, status = st, priority = pr,
      dueDate = None, tags = [], createdAt = i, updatedAt = i\<rparr>"

definition example_db :: task_db where
  "example_db =
     \<lparr>tasks = [example_task 1 1 ''abc'' Todo High, example_task 2 2 ''Buy milk'' Todo Medium,
               example_task 3 1 ''a.c'' Done Low, example_task 4 1 ''Call Bob'' InProgress Medium],
      next_oid = 5, now = 5\<rparr>"

text \<open>
  An environment for the examples: one date is well-formed, the schema accepts every
  document, the store refuses the empty sort key and leaves the order for the other
  keys it is asked for. No example leaves the range of exact arithmetic; outside it
  this store fails.
\<close>

definition example_env :: task_env where
  "example_env = \<lparr>trim = trim_spaces, isISO8601 = (\<lambda>s. s = ''2024-01-01''),
                 regexCompile = example_regex,
                 schemaValidate = (\<lambda>t. True), schemaValidateUpdate = (\<lambda>up. True),
                 sortOther = (\<lambda>k ord ts. if k = [] then None else Some ts),
                 inexact = (\<lambda>q ts. None)\<rparr>"

definition owner_filter :: "user_id \<Rightarrow> task_filter" where
  "owner_filter u = \<lparr>f_user = u, f_status = None, f_priority = None, f_search = None\<rparr>"

text \<open>A body without keys, the fields a creation request may be told wrong, and a request with six tags.\<close>

definition empty_body :: task_body where
  "empty_body = \<lparr>b_user = None, b_title = None, b_description = None, b_status = None,
                  b_priority = None, b_dueDate = None, b_tags = None\<rparr>"

definition create_fields :: "string list" where
  "create_fields = [''title'', ''description'', ''status'', ''priority'', ''dueDate'', ''tags'']"

definition six_tags :: task_body where
  "six_tags = empty_body\<lparr>b_title := Some ''Buy milk'', b_tags := Some (TagsArray [''a'', ''b'', ''c'', ''d'', ''e'', ''f''])\<rparr>"

section \<open>Authentication and password routes (backend/routes/auth.js, users.js)\<close>

subsection \<open>Users\<close>

text \<open>
  A user document as a handler holds it: \<open>password\<close> is the stored hash, and \<open>None\<close>
  when the path was not selected or has been removed from the object.
\<close>

datatype role = Standard | Admin

record user_doc =
  uid :: user_id
  name :: string
  email :: string
  password :: "string option"
  bio :: "string option"
  role :: role

record user_db =
  users :: "user_doc list"
  next_uid :: nat

record register_body =
  r_name :: "string option"
  r_email :: "string option"
  r_password :: "string option"

record login_body =
  l_email :: "string option"
  l_password :: "string option"

record password_body =
  currentPassword :: "string option"
  newPassword :: "string option"

datatype auth_payload =
    Session string user_doc
  | AuthMessage string
  | AuthError string
  | AuthErrors "(string \<times> string) list"

datatype auth_response = AuthRespond nat auth_payload

text \<open>
  What the routes use and the sources do not contain: the \<open>trim\<close> sanitizer, the
  e-mail test and the normaliser of the validation library, the password hash and its
  comparison, the token
  signature, and the validators of the User schema (models/User.js), which see the
  name, the e-mail address and the password as assigned.
\<close>

record auth_env = validator +
  isEmail :: "string \<Rightarrow> bool"
  normalizeEmail :: "string \<Rightarrow> string"
  bcryptHash :: "string \<Rightarrow> string"
  bcryptCompare :: "string \<Rightarrow> string \<Rightarrow> bool"
  jwtSign :: "user_id \<Rightarrow> string"
  userSchemaValidate :: "string \<Rightarrow> string \<Rightarrow> string \<Rightarrow> bool"

definition has_digit :: "string \<Rightarrow> bool" where
  "has_digit s = list_ex (\<lambda>c. c \<in> set ''0123456789'') s"

definition text_of :: "string option \<Rightarrow> string" where
  "text_of v = (case v of None \<Rightarrow> [] | Some s \<Rightarrow> s)"

text \<open>A field after \<open>trim()\<close>; a missing field is the empty string, which \<open>trim()\<close> leaves empty.\<close>

definition trimmed :: "'a validator_scheme \<Rightarrow> string option \<Rightarrow> string" where
  "trimmed env v = (case v of None \<Rightarrow> [] | Some s \<Rightarrow> trim env s)"

text \<open>The chains of \<open>POST /register\<close> (auth.js, lines 29-43) and what they leave in \<open>req.body\<close>.\<close>

definition validate_register :: "auth_env \<Rightarrow> register_body \<Rightarrow> (string \<times> string) list" where
  "validate_register env b =
     check (trimmed env (r_name b) \<noteq> []) ''name'' ''Name is required''
   @ check (2 \<le> length (trimmed env (r_name b)) \<and> length (trimmed env (r_name b)) \<le> 50)
       ''name'' ''Name must be 2-50 characters''
   @ check (trimmed env (r_email b) \<noteq> []) ''email'' ''Email is required''
   @ check (isEmail env (trimmed env (r_email b))) ''email'' ''Please provide a valid email''
   @ check (text_of (r_password b) \<noteq> []) ''password'' ''Password is required''
   @ check (6 \<le> length (text_of (r_password b))) ''password'' ''Password must be at least 6 characters''
   @ check (has_digit (text_of (r_password b))) ''password'' ''Password must contain at least one number''"

definition sanitize_email :: "auth_env \<Rightarrow> string option \<Rightarrow> string" where
  "sanitize_email env v = normalizeEmail env (trimmed env v)"

text \<open>The chains of \<open>POST /login\<close> (auth.js, lines 81-89).\<close>

definition validate_login :: "auth_env \<Rightarrow> login_body \<Rightarrow> (string \<times> string) list" where
  "validate_login env b =
     check (trimmed env (l_email b) \<noteq> []) ''email'' ''Email is required''
   @ check (isEmail env (trimmed env (l_email b))) ''email'' ''Please provide a valid email''
   @ check (text_of (l_password b) \<noteq> []) ''password'' ''Password is required''"

text \<open>The chains of \<open>PUT /password\<close> (users.js, lines 69-74).\<close>

definition validate_password :: "password_body \<Rightarrow> (string \<times> string) list" where
  "validate_password b =
     check (text_of (currentPassword b) \<noteq> []) ''currentPassword'' ''Current password is required''
   @ check (6 \<le> length (text_of (newPassword b))) ''newPassword'' ''New password must be at least 6 characters''
   @ check (has_digit (text_of (newPassword b))) ''newPassword'' ''New password must contain at least one number''"

subsection \<open>The User model\<close>

text \<open>
  Queries. Login and the password change load the document with its password path
  (\<open>select('+password')\<close>); register only tests whether its query finds a document.
\<close>

definition findByEmail :: "user_db \<Rightarrow> string \<Rightarrow> user_doc option" where
  "findByEmail db e = find (\<lambda>u. email u = e) (users db)"

definition findById :: "user_db \<Rightarrow> user_id \<Rightarrow> user_doc option" where
  "findById db i = find (\<lambda>u. uid u = i) (users db)"

text \<open>
  Modelled from the spec: the User model (models/User.js) is not among the sources.
  "\<open>create(name, email, plaintextPassword)\<close> fails with \<open>Conflict\<close> if email exists;
  otherwise hashes the password with a salted, computationally-expensive one-way
  function and persists the record; returns the user without the hash." The failure
  reaches the caller as an exception (\<open>None\<close>); the role of a new user is the standard
  one.
\<close>

definition without_password :: "user_doc \<Rightarrow> user_doc" where
  "without_password u = u\<lparr>password := None\<rparr>"

definition User_create :: "auth_env \<Rightarrow> user_db \<Rightarrow> string \<Rightarrow> string \<Rightarrow> string \<Rightarrow> (user_db \<times> user_doc) option" where
  "User_create env db n e pw =
     (let doc = \<lparr>uid = next_uid db, name = n, email = e, password = Some (bcryptHash env pw),
                 bio = None, role = Standard\<rparr>
      in if findByEmail db e \<noteq> None then None
         else Some (db\<lparr>users := users db @ [doc], next_uid := Suc (next_uid db)\<rparr>, without_password doc))"

text \<open>
  Modelled from the spec: "\<open>verifyPassword(user, plaintext)\<close>: comparison against the
  stored hash; returns boolean." Without a loaded hash the comparison throws (\<open>None\<close>).
\<close>

definition comparePassword :: "auth_env \<Rightarrow> user_doc \<Rightarrow> string \<Rightarrow> bool option" where
  "comparePassword env u candidate =
     (case password u of None \<Rightarrow> None | Some h \<Rightarrow> Some (bcryptCompare env candidate h))"

text \<open>
  Modelled from the spec: "\<open>changePassword\<close> re-hashes and persists newPlaintext":
  saving a document whose password was assigned stores the hash of the assigned value;
  \<open>save\<close> throws (\<open>None\<close>) when the schema rejects the document.
\<close>

definition save_password :: "auth_env \<Rightarrow> user_db \<Rightarrow> user_doc \<Rightarrow> string \<Rightarrow> user_db option" where
  "save_password env db u pw =
     (if userSchemaValidate env (name u) (email u) pw
      then Some (db\<lparr>users := update_first (\<lambda>x. uid x = uid u)
                                (\<lambda>x. x\<lparr>password := Some (bcryptHash env pw)\<rparr>) (users db)\<rparr>)
      else None)"

subsection \<open>Handlers\<close>

text \<open>\<open>sendTokenResponse\<close> (auth.js, lines 15-22).\<close>

definition sendTokenResponse :: "auth_env \<Rightarrow> user_doc \<Rightarrow> nat \<Rightarrow> auth_response" where
  "sendTokenResponse env u statusCode = AuthRespond statusCode (Session (jwtSign env (uid u)) u)"

text \<open>
  \<open>POST /register\<close> (auth.js, lines 44-73): the document \<open>User.create\<close> resolves to
  goes to \<open>sendTokenResponse\<close> as it is.
\<close>

definition register :: "auth_env \<Rightarrow> user_db \<Rightarrow> register_body \<Rightarrow> user_db \<times> auth_response" where
  "register env db b =
     (let errors = validate_register env b in
      if errors \<noteq> [] then (db, AuthRespond 400 (AuthErrors errors))
      else
        let n = trimmed env (r_name b); e = sanitize_email env (r_email b); pw = text_of (r_password b) in
        case findByEmail db e of
          Some existingUser \<Rightarrow>
            (db, AuthRespond 409 (AuthError ''An account with this email already exists.''))
        | None \<Rightarrow>
            (case User_create env db n e pw of
               None \<Rightarrow> (db, AuthRespond 500 (AuthError ''Server error during registration.''))
             | Some (db', u) \<Rightarrow> (db', sendTokenResponse env u 201)))"

text \<open>
  \<open>POST /login\<close> (auth.js, lines 90-121): \<open>user.password = undefined\<close> removes the hash
  before the document is sent.
\<close>

definition login :: "auth_env \<Rightarrow> user_db \<Rightarrow> login_body \<Rightarrow> auth_response" where
  "login env db b =
     (let errors = validate_login env b in
      if errors \<noteq> [] then AuthRespond 400 (AuthErrors errors)
      else
        case findByEmail db (sanitize_email env (l_email b)) of
          None \<Rightarrow> AuthRespond 401 (AuthError ''Invalid email or password.'')
        | Some u \<Rightarrow>
            (case comparePassword env u (text_of (l_password b)) of
               None \<Rightarrow> AuthRespond 500 (AuthError ''Server error during login.'')
             | Some isMatch \<Rightarrow>
                 if \<not> isMatch then AuthRespond 401 (AuthError ''Invalid email or password.'')
                 else sendTokenResponse env (u\<lparr>password := None\<rparr>) 200))"

text \<open>
  \<open>PUT /password\<close> (users.js, lines 75-99) for the authenticated user \<open>i\<close>; without a
  document the method call on it throws.
\<close>

definition change_password :: "auth_env \<Rightarrow> user_db \<Rightarrow> user_id \<Rightarrow> password_body \<Rightarrow> user_db \<times> auth_response" where
  "change_password env db i b =
     (let errors = validate_password b in
      if errors \<noteq> [] then (db, AuthRespond 400 (AuthErrors errors))
      else
        case findById db i of
          None \<Rightarrow> (db, AuthRespond 500 (AuthError ''Failed to change password.''))
        | Some u \<Rightarrow>
            (case comparePassword env u (text_of (currentPassword b)) of
               None \<Rightarrow> (db, AuthRespond 500 (AuthError ''Failed to change password.''))
             | Some isMatch \<Rightarrow>
                 if \<not> isMatch then (db, AuthRespond 400 (AuthError ''Current password is incorrect.''))
                 else (case save_password env db u (text_of (newPassword b)) of
                         None \<Rightarrow> (db, AuthRespond 500 (AuthError ''Failed to change password.''))
                       | Some db' \<Rightarrow>
                           (db', AuthRespond 200 (AuthMessage ''Password updated successfully.'')))))"

text \<open>
  An example: hashing prefixes the password, e-mail addresses are lower-cased, the
  schema accepts every user.
\<close>

definition example_auth :: auth_env where
  "example_auth =
     \<lparr>trim = trim_spaces, isEmail = (\<lambda>s. CHR ''@'' \<in> set s), normalizeEmail = map lower,
      bcryptHash = (\<lambda>pw. ''$2a$'' @ pw), bcryptCompare = (\<lambda>pw h. h = ''$2a$'' @ pw),
      jwtSign = (\<lambda>i. ''token''), userSchemaValidate = (\<lambda>n e pw. True)\<rparr>"

definition ann :: register_body where
  "ann = \<lparr>r_name = Some ''Ann'', r_email = Some ''Ann@x.com'', r_password = Some ''abc123''\<rparr>"

definition no_users :: user_db where
  "no_users = \<lparr>users = [], next_uid = 1\<rparr>"

definition ann_user :: user_doc where
  "ann_user = \<lparr>uid = 1, name = ''Ann'', email = ''ann@x.com'', password = None, bio = None, role = Standard\<rparr>"

definition ann_db :: user_db where
  "ann_db = \<lparr>users = [ann_user\<lparr>password := Some ''$2a$abc123''\<rparr>], next_uid = 2\<rparr>"

text \<open>The store's invariant: identifiers are unique and below the next one to be assigned.\<close>

definition wf_db :: "task_db \<Rightarrow> bool" where
  "wf_db db = (distinct (map task_id (tasks db)) \<and> list_all (\<lambda>t. task_id t < next_oid db) (tasks db))"

section \<open>Properties\<close>

subsection \<open>Grouping and the dashboard summary\<close>

lemma map_of_bump:
  "map_of (bump k gs) = (map_of gs)(k \<mapsto> (case map_of gs k of None \<Rightarrow> 1 | Some c \<Rightarrow> Suc c))"
  by (induction gs) (auto simp: fun_eq_iff)

lemma keys_bump:
  "map fst (bump k gs) = (if k \<in> fst ` set gs then map fst gs else map fst gs @ [k])"
proof (induction gs)
  case Nil
  then show ?case by simp
next
  case (Cons g gs)
  obtain k' c where g: "g = (k', c)" by (cases g)
  show ?case using Cons.IH by (auto simp: g)
qed

lemma distinct_bump: "distinct (map fst gs) \<Longrightarrow> distinct (map fst (bump k gs))"
  by (simp add: keys_bump)

lemma sum_bump: "sum_list (map snd (bump k gs)) = Suc (sum_list (map snd gs))"
  by (induction gs) auto

lemma distinct_fold_bump: "distinct (map fst gs) \<Longrightarrow> distinct (map fst (fold bump ks gs))"
  by (induction ks arbitrary: gs) (auto simp: distinct_bump)

lemma sum_fold_bump: "sum_list (map snd (fold bump ks gs)) = sum_list (map snd gs) + length ks"
  by (induction ks arbitrary: gs) (auto simp: sum_bump)

lemma map_of_fold_bump:
  "map_of (fold bump ks gs) k =
     (case map_of gs k of
        None \<Rightarrow> if count_list ks k = 0 then None else Some (count_list ks k)
      | Some c \<Rightarrow> Some (c + count_list ks k))"
  by (induction ks arbitrary: gs) (auto simp: map_of_bump split: option.splits)

lemma distinct_group_count: "distinct (map fst (group_count ks))"
  by (simp add: group_count_def distinct_fold_bump)

lemma sum_group_count: "sum_list (map snd (group_count ks)) = length ks"
  by (simp add: group_count_def sum_fold_bump)

lemma map_of_group_count:
  "map_of (group_count ks) k = (if count_list ks k = 0 then None else Some (count_list ks k))"
  by (simp add: group_count_def map_of_fold_bump)

lemma fold_summary:
  "distinct (map fst stats) \<Longrightarrow>
   fold (\<lambda>(k, c) s. (set_status k c s)\<lparr>s_total := s_total (set_status k c s) + c\<rparr>) stats s0 =
     \<lparr>s_todo = (case map_of stats Todo of None \<Rightarrow> s_todo s0 | Some c \<Rightarrow> c),
      s_in_progress = (case map_of stats InProgress of None \<Rightarrow> s_in_progress s0 | Some c \<Rightarrow> c),
      s_done = (case map_of stats Done of None \<Rightarrow> s_done s0 | Some c \<Rightarrow> c),
      s_total = s_total s0 + sum_list (map snd stats)\<rparr>"
proof (induction stats arbitrary: s0)
  case Nil
  then show ?case by simp
next
  case (Cons g gs)
  obtain k c where g: "g = (k, c)" by (cases g)
  from Cons.prems g have nk: "map_of gs k = None" and d: "distinct (map fst gs)"
    by (auto simp: map_of_eq_None_iff)
  show ?case
    using nk by (cases k) (simp_all add: g Cons.IH [OF d] split: option.splits)
qed

lemma fold_priority:
  "distinct (map fst stats) \<Longrightarrow>
   fold (\<lambda>(k, c) p. set_priority k c p) stats p0 =
     \<lparr>p_low = (case map_of stats Low of None \<Rightarrow> p_low p0 | Some c \<Rightarrow> c),
      p_medium = (case map_of stats Medium of None \<Rightarrow> p_medium p0 | Some c \<Rightarrow> c),
      p_high = (case map_of stats High of None \<Rightarrow> p_high p0 | Some c \<Rightarrow> c)\<rparr>"
proof (induction stats arbitrary: p0)
  case Nil
  then show ?case by simp
next
  case (Cons g gs)
  obtain k c where g: "g = (k, c)" by (cases g)
  from Cons.prems g have nk: "map_of gs k = None" and d: "distinct (map fst gs)"
    by (auto simp: map_of_eq_None_iff)
  show ?case
    using nk by (cases k) (simp_all add: g Cons.IH [OF d] split: option.splits)
qed

lemma count_status_total:
  "count_list ks Todo + count_list ks InProgress + count_list ks Done = length ks"
proof (induction ks)
  case Nil
  then show ?case by simp
next
  case (Cons k ks)
  then show ?case by (cases k) simp_all
qed

lemma count_priority_total:
  "count_list ks Low + count_list ks Medium + count_list ks High = length ks"
proof (induction ks)
  case Nil
  then show ?case by simp
next
  case (Cons k ks)
  then show ?case by (cases k) simp_all
qed

lemma count_list_map: "count_list (map f xs) k = length (filter (\<lambda>x. f x = k) xs)"
  by (induction xs) auto

lemma summarise_group:
  "summarise (group_count ks) =
     \<lparr>s_todo = count_list ks Todo, s_in_progress = count_list ks InProgress,
      s_done = count_list ks Done, s_total = length ks\<rparr>"
  unfolding summarise_def
  by (simp add: fold_summary [OF distinct_group_count] map_of_group_count sum_group_count)

lemma summarise_priority_group:
  "summarise_priority (group_count ks) =
     \<lparr>p_low = count_list ks Low, p_medium = count_list ks Medium, p_high = count_list ks High\<rparr>"
  unfolding summarise_priority_def
  by (simp add: fold_priority [OF distinct_group_count] map_of_group_count)

lemma find_tasks_unfiltered:
  "build_filter env u unfiltered = Some flt \<Longrightarrow> find_tasks flt db = filter (\<lambda>t. user t = u) (tasks db)"
  by (auto simp: build_filter_def unfiltered_def truthy_def find_tasks_def matches_def intro: filter_cong)

text \<open>
  C7. For every owner the summary holds a count for each of todo, in-progress and done
  and for each of low, medium and high, equal to the number of the owner's tasks with
  that status or priority (so 0 when there is none: the key is always there). The
  status counts and the priority counts each sum to the total, which is the number of
  the owner's tasks and the total an unfiltered list request reports for the same owner.
\<close>

theorem stats_summary_counts:
  "\<exists>s p ts pg.
     stats_summary db u = Respond 200 (Stats s p)
     \<and> s_todo s = length (filter (\<lambda>t. status t = Todo) (filter (\<lambda>t. user t = u) (tasks db)))
     \<and> s_in_progress s = length (filter (\<lambda>t. status t = InProgress) (filter (\<lambda>t. user t = u) (tasks db)))
     \<and> s_done s = length (filter (\<lambda>t. status t = Done) (filter (\<lambda>t. user t = u) (tasks db)))
     \<and> p_low p = length (filter (\<lambda>t. priority t = Low) (filter (\<lambda>t. user t = u) (tasks db)))
     \<and> p_medium p = length (filter (\<lambda>t. priority t = Medium) (filter (\<lambda>t. user t = u) (tasks db)))
     \<and> p_high p = length (filter (\<lambda>t. priority t = High) (filter (\<lambda>t. user t = u) (tasks db)))
     \<and> s_total s = length (filter (\<lambda>t. user t = u) (tasks db))
     \<and> s_todo s + s_in_progress s + s_done s = s_total s
     \<and> p_low p + p_medium p + p_high p = s_total s
     \<and> list_tasks env db u unfiltered = Respond 200 (TaskList ts pg)
     \<and> pg_total pg = s_total s"
proof -
  let ?mine = "filter (\<lambda>t. user t = u) (tasks db)"
  obtain flt where flt: "build_filter env u unfiltered = Some flt"
    by (simp add: build_filter_def unfiltered_def truthy_def)
  have ft: "find_tasks flt db = ?mine"
    by (rule find_tasks_unfiltered [OF flt])
  have st: "stats_summary db u =
      Respond 200 (Stats (summarise (group_count (map status ?mine)))
                         (summarise_priority (group_count (map priority ?mine))))"
    by (simp add: stats_summary_def aggregate_def)
  have q: "q_page unfiltered = None" "q_limit unfiltered = None" "q_sortBy unfiltered = None"
      "q_order unfiltered = None"
    by (simp_all add: unfiltered_def)
  have srt: "sort_tasks env ''createdAt'' ''desc'' ?mine =
      Some (sort_by (\<lambda>a b. val_less (sort_key ByCreatedAt b) (sort_key ByCreatedAt a)) ?mine)"
    by (simp add: sort_tasks_def sort_field_of_def)
  have "\<exists>ts pg. list_tasks env db u unfiltered = Respond 200 (TaskList ts pg) \<and> pg_total pg = length ?mine"
    by (simp add: list_tasks_def flt ft q srt Let_def safe_int_def)
  then obtain ts pg where l: "list_tasks env db u unfiltered = Respond 200 (TaskList ts pg)"
    and pt: "pg_total pg = length ?mine" by blast
  show ?thesis
    using l pt count_status_total [of "map status ?mine"] count_priority_total [of "map priority ?mine"]
    by (simp add: st summarise_group summarise_priority_group count_list_map)
qed



subsection \<open>Pagination\<close>

lemma mset_insort_by: "mset (insort_by prec x xs) = add_mset x (mset xs)"
  by (induction xs) auto

lemma mset_sort_by: "mset (sort_by prec xs) = mset xs"
  by (induction xs) (auto simp: sort_by_def mset_insort_by)

lemma concat_chunks:
  "0 < n \<Longrightarrow> length xs \<le> P * n \<Longrightarrow>
   concat (map (\<lambda>k. take n (drop (k * n) xs)) [0..<P]) = xs"
proof (induction P arbitrary: xs)
  case 0
  then show ?case by simp
next
  case (Suc P)
  have len: "length (drop n xs) \<le> P * n" using Suc.prems by simp
  have "concat (map (\<lambda>k. take n (drop (k * n) xs)) [0..<Suc P]) =
        take n xs @ concat (map (\<lambda>k. take n (drop (Suc k * n) xs)) [0..<P])"
    by (simp add: upt_conv_Cons map_Suc_upt [symmetric] comp_def del: upt_Suc)
  also have "(\<lambda>k. take n (drop (Suc k * n) xs)) = (\<lambda>k. take n (drop (k * n) (drop n xs)))"
    by (simp add: add.commute)
  also have "take n xs @ concat (map (\<lambda>k. take n (drop (k * n) (drop n xs))) [0..<P]) = xs"
    using Suc.IH [OF Suc.prems(1) len] by simp
  finally show ?case .
qed

lemma upto_as_upt: "[1..int n] = map (\<lambda>k. int k + 1) [0..<n]"
proof (induction n)
  case 0
  then show ?case by simp
next
  case (Suc n)
  have "[1..int (Suc n)] = [1..int n] @ [int n + 1]"
    using upto_rec2 [of 1 "int (Suc n)"] by (simp add: add.commute)
  then show ?case using Suc by simp
qed

lemma ceil_div_ceiling:
  "0 < l \<Longrightarrow> ceil_div n l = Some \<lceil>real n / real_of_int l\<rceil>"
proof -
  assume "0 < l"
  have "\<lceil>real n / real_of_int l\<rceil> = - \<lfloor>- (real n / real_of_int l)\<rfloor>"
    by (simp add: ceiling_def)
  also have "- (real n / real_of_int l) = real_of_int (- int n) / real_of_int l"
    by simp
  also have "\<lfloor>real_of_int (- int n) / real_of_int l\<rfloor> = (- int n) div l"
    by (rule floor_divide_of_int_eq)
  finally show ?thesis using \<open>0 < l\<close> by (simp add: ceil_div_def)
qed

lemma build_filter_page: "build_filter env u (q\<lparr>q_page := pg\<rparr>) = build_filter env u q"
  by (simp add: build_filter_def)


lemma mset_sort_tasks:
  "sort_tasks env sortBy ord ts = Some ss \<Longrightarrow> sort_field_of sortBy = Some f \<Longrightarrow> mset ss = mset ts"
  by (auto simp: sort_tasks_def mset_sort_by split: if_splits)

lemma sort_tasks_field:
  "sort_field_of sortBy = Some f \<Longrightarrow> \<exists>ss. sort_tasks env sortBy ord ts = Some ss"
  by (simp add: sort_tasks_def)

lemma documented_sort_fields:
  "s \<in> set [''createdAt'', ''dueDate'', ''priority'', ''title''] \<Longrightarrow> \<exists>f. sort_field_of s = Some f"
  by (auto simp: sort_field_of_def)

text \<open>The handler's filter selects what the specification's does.\<close>

lemma build_filter_selects:
  assumes "case q_search q of None \<Rightarrow> True
           | Some s \<Rightarrow> trim env s = [] \<or> regexCompile env (trim env s) = Some m"
  shows "\<exists>flt. build_filter env u q = Some flt
           \<and> find_tasks flt db = filter (selects env m u q) (tasks db)"
proof (cases "truthy (map_option (trim env) (q_search q))")
  case None
  then have e: "case q_search q of None \<Rightarrow> True | Some s \<Rightarrow> trim env s = []"
    by (auto simp: truthy_def split: option.splits if_splits)
  have "build_filter env u q = Some \<lparr>f_user = u, f_status = truthy (q_status q),
          f_priority = truthy (q_priority q), f_search = None\<rparr>"
    using None by (simp add: build_filter_def)
  moreover have "matches \<lparr>f_user = u, f_status = truthy (q_status q),
          f_priority = truthy (q_priority q), f_search = None\<rparr> = selects env m u q"
    using e by (auto simp: fun_eq_iff matches_def selects_def truthy_def split: option.splits)
  ultimately show ?thesis by (simp add: find_tasks_def)
next
  case (Some pat)
  then obtain s where s: "q_search q = Some s" "trim env s = pat" "pat \<noteq> []"
    by (auto simp: truthy_def split: option.splits if_splits)
  with assms have c: "regexCompile env pat = Some m" by simp
  have "build_filter env u q = Some \<lparr>f_user = u, f_status = truthy (q_status q),
          f_priority = truthy (q_priority q), f_search = Some m\<rparr>"
    using Some c by (simp add: build_filter_def)
  moreover have "matches \<lparr>f_user = u, f_status = truthy (q_status q),
          f_priority = truthy (q_priority q), f_search = Some m\<rparr> = selects env m u q"
    using s by (auto simp: fun_eq_iff matches_def selects_def truthy_def split: option.splits)
  ultimately show ?thesis by (simp add: find_tasks_def)
qed

lemma safe_page:
  assumes "1 \<le> p" "1 \<le> l" "p * l < 2 ^ 53"
  shows "safe_int p" "safe_int l" "safe_int ((p - 1) * l)" "\<not> (p - 1) * l < 0"
proof -
  have a: "p \<le> p * l" using assms(1,2) by (simp add: mult_le_cancel_left1)
  have b: "l \<le> p * l" using assms(1,2) by (simp add: mult_le_cancel_right1)
  have c: "(p - 1) * l \<le> p * l" using assms(2) by (simp add: mult_right_mono)
  have d: "0 \<le> (p - 1) * l" using assms(1,2) by simp
  have e: "p * l < 9007199254740992" using assms(3) by simp
  have p': "p < 9007199254740992" by (rule le_less_trans [OF a e])
  have l': "l < 9007199254740992" by (rule le_less_trans [OF b e])
  have s': "(p - 1) * l < 9007199254740992" by (rule le_less_trans [OF c e])
  show "safe_int p" using p' assms(1) by (simp add: safe_int_def)
  show "safe_int l" using l' assms(2) by (simp add: safe_int_def)
  show "safe_int ((p - 1) * l)" unfolding safe_int_def
  proof
    show "- (2 ^ 53) < (p - 1) * l" by (rule less_le_trans [OF _ d]) simp
    show "(p - 1) * l < 2 ^ 53" using s' by simp
  qed
  show "\<not> (p - 1) * l < 0" using d by simp
qed

lemma list_tasks_page:
  assumes flt: "build_filter env u q = Some flt"
    and srt: "sort_tasks env (case q_sortBy q of None \<Rightarrow> ''createdAt'' | Some s \<Rightarrow> s)
                (case q_order q of None \<Rightarrow> ''desc'' | Some s \<Rightarrow> s) (find_tasks flt db) = Some ss"
    and l: "(case q_limit q of None \<Rightarrow> 10 | Some v \<Rightarrow> v) = l" "1 \<le> l"
    and p: "1 \<le> p" "p * l < 2 ^ 53"
  shows "list_tasks env db u (q\<lparr>q_page := Some p\<rparr>) =
     Respond 200 (TaskList (take (nat l) (drop (nat (p - 1) * nat l) ss))
       \<lparr>pg_total = length (find_tasks flt db), pg_page = p,
        pg_pages = Some \<lceil>real (length (find_tasks flt db)) / real_of_int l\<rceil>, pg_limit = l\<rparr>)"
proof -
  note s = safe_page [OF p(1) l(2) p(2)]
  have n: "nat ((p - 1) * l) = nat (p - 1) * nat l" using l(2) p by (simp add: nat_mult_distrib)
  have l0: "0 < l" "\<bar>l\<bar> = l" "l \<noteq> 0" using l(2) by auto
  show ?thesis
    unfolding list_tasks_def build_filter_page flt
    using l(1) s srt by (simp add: Let_def limit_docs_def l0 n ceil_div_ceiling)
qed

text \<open>
  C6. For every owner and every filter, with a search pattern that compiles (\<open>m\<close> its
  matcher), a sort field among createdAt, dueDate, priority and title, and a page size
  \<open>l\<close> in [1,100] (the default 10 when none is given), on a store of fewer than
  \<open>2^52\<close> tasks. Let \<open>T\<close> be the number of the owner's tasks that the filter selects
  and \<open>P = \<lceil>T / l\<rceil>\<close>. Every page \<open>p \<ge> 1\<close> within the exact range is answered with status
  200 and the metadata total = \<open>T\<close>, pages = \<open>P\<close>, the page and the page size; the
  pages 1 .. \<open>P\<close> together hold exactly the selected tasks, each as often as the store
  holds it (once), and the numbers of tasks returned per page sum to \<open>T\<close>.
\<close>

theorem list_tasks_pagination:
  assumes search: "case q_search q of None \<Rightarrow> True
                   | Some s \<Rightarrow> trim env s = [] \<or> regexCompile env (trim env s) = Some m"
    and sortBy: "case q_sortBy q of None \<Rightarrow> True
                 | Some s \<Rightarrow> s \<in> set [''createdAt'', ''dueDate'', ''priority'', ''title'']"
    and l: "(case q_limit q of None \<Rightarrow> 10 | Some v \<Rightarrow> v) = l" "1 \<le> l" "l \<le> 100"
    and size: "length (tasks db) < 2 ^ 52"
    and T: "T = length (filter (selects env m u q) (tasks db))"
    and P: "P = \<lceil>real T / real_of_int l\<rceil>"
  shows "(\<forall>p. 1 \<le> p \<and> p * l < 2 ^ 53 \<longrightarrow>
            (\<exists>ts. list_tasks env db u (q\<lparr>q_page := Some p\<rparr>) =
               Respond 200 (TaskList ts
                 \<lparr>pg_total = T, pg_page = p, pg_pages = Some P, pg_limit = l\<rparr>)))
       \<and> mset (concat (map (\<lambda>p. tasks_of (list_tasks env db u (q\<lparr>q_page := Some p\<rparr>))) [1..P]))
           = mset (filter (selects env m u q) (tasks db))
       \<and> sum_list (map (\<lambda>p. length (tasks_of (list_tasks env db u (q\<lparr>q_page := Some p\<rparr>)))) [1..P])
           = T"
proof -
  let ?sel = "filter (selects env m u q) (tasks db)"
  let ?key = "case q_sortBy q of None \<Rightarrow> ''createdAt'' | Some s \<Rightarrow> s"
  let ?ord = "case q_order q of None \<Rightarrow> ''desc'' | Some s \<Rightarrow> s"
  let ?page = "\<lambda>p. tasks_of (list_tasks env db u (q\<lparr>q_page := Some p\<rparr>))"
  obtain flt where flt: "build_filter env u q = Some flt" and ft: "find_tasks flt db = ?sel"
    using build_filter_selects [OF search] by blast
  have "?key \<in> set [''createdAt'', ''dueDate'', ''priority'', ''title'']"
    using sortBy by (cases "q_sortBy q") simp_all
  then obtain f where f: "sort_field_of ?key = Some f"
    using documented_sort_fields by blast
  obtain ss where srt: "sort_tasks env ?key ?ord (find_tasks flt db) = Some ss"
    using sort_tasks_field [OF f] by blast
  have ms: "mset ss = mset ?sel" using mset_sort_tasks [OF srt f] ft by simp
  then have ls: "length ss = T" unfolding T by (metis size_mset)
  have resp: "list_tasks env db u (q\<lparr>q_page := Some p\<rparr>) =
     Respond 200 (TaskList (take (nat l) (drop (nat (p - 1) * nat l) ss))
       \<lparr>pg_total = T, pg_page = p, pg_pages = Some P, pg_limit = l\<rparr>)"
    if "1 \<le> p" "p * l < 2 ^ 53" for p
    using list_tasks_page [OF flt srt l(1,2) that] by (simp add: ft T P)
  have "0 \<le> real T / real_of_int l" using l(2) by (simp add: divide_nonneg_pos)
  then have P0: "0 \<le> P" unfolding P by (simp add: order_trans [OF _ le_of_int_ceiling])
  have "real T / real_of_int l \<le> real_of_int P" unfolding P by (rule le_of_int_ceiling)
  then have "real T \<le> real_of_int P * real_of_int l" using l(2) by (simp add: pos_divide_le_eq)
  then have TP: "int T \<le> P * l"
    by (metis (mono_tags) of_int_le_iff of_int_mult of_int_of_nat_eq)
  then have cover: "length ss \<le> nat P * nat l"
    using P0 l(2) by (simp add: ls nat_mult_distrib [symmetric] le_nat_iff)
  have "real_of_int P - 1 < real T / real_of_int l"
    unfolding P using ceiling_correct [of "real T / real_of_int l"] by simp
  then have "(real_of_int P - 1) * real_of_int l < real T"
    using l(2) by (simp add: pos_less_divide_eq)
  then have "real_of_int ((P - 1) * l) < real_of_int (int T)" by simp
  then have PT: "(P - 1) * l < int T" by (simp only: of_int_less_iff)
  have "T \<le> length (tasks db)" unfolding T by simp
  then have "int T < 2 ^ 52" using size by simp
  then have Pl: "P * l < 2 ^ 53" using PT l(3) by (simp add: algebra_simps)
  have inr: "p * l < 2 ^ 53" if "p \<le> P" for p
  proof -
    have "p * l \<le> P * l" using that l(2) by (simp add: mult_right_mono)
    then show ?thesis using Pl by simp
  qed
  have pg: "?page (int k + 1) = take (nat l) (drop (k * nat l) ss)" if "k < nat P" for k
  proof -
    have "int k + 1 \<le> P" using that by simp
    then show ?thesis using resp [of "int k + 1"] inr by (simp add: tasks_of_def)
  qed
  have upto: "[1..P] = map (\<lambda>k. int k + 1) [0..<nat P]"
    using upto_as_upt [of "nat P"] P0 by simp
  have "map ?page [1..P] = map (\<lambda>k. take (nat l) (drop (k * nat l) ss)) [0..<nat P]"
    unfolding upto using pg by (simp add: comp_def)
  then have cc: "concat (map ?page [1..P]) = ss"
    using concat_chunks [of "nat l" ss "nat P"] cover l(2) by simp
  have first: "\<forall>p. 1 \<le> p \<and> p * l < 2 ^ 53 \<longrightarrow>
            (\<exists>ts. list_tasks env db u (q\<lparr>q_page := Some p\<rparr>) =
               Respond 200 (TaskList ts
                 \<lparr>pg_total = T, pg_page = p, pg_pages = Some P, pg_limit = l\<rparr>))"
    using resp by blast
  have second: "mset (concat (map ?page [1..P])) = mset ?sel"
    by (simp only: cc ms)
  have "sum_list (map (\<lambda>p. length (?page p)) [1..P]) = length (concat (map ?page [1..P]))"
    by (simp add: length_concat comp_def)
  then have third: "sum_list (map (\<lambda>p. length (?page p)) [1..P]) = T"
    by (simp only: cc ls)
  show ?thesis using first second third by blast
qed

theorem list_tasks_pagination_witness:
  "regexCompile example_env (trim example_env '' a.c '') =
     Some (search_re [One (Lit CHR ''a''), One AnyChar, One (Lit CHR ''c'')])
   \<and> filter (selects example_env (search_re [One (Lit CHR ''a''), One AnyChar, One (Lit CHR ''c'')]) 1
        (unfiltered\<lparr>q_search := Some '' a.c '', q_status := Some '''', q_limit := Some 1\<rparr>))
        (tasks example_db) =
      [example_task 1 1 ''abc'' Todo High, example_task 3 1 ''a.c'' Done Low]
   \<and> (\<exists>ts. list_tasks example_env example_db 1
          (unfiltered\<lparr>q_search := Some '' a.c '', q_status := Some '''', q_limit := Some 1,
                      q_page := Some 2\<rparr>) =
        Respond 200 (TaskList ts \<lparr>pg_total = 2, pg_page = 2, pg_pages = Some 2, pg_limit = 1\<rparr>))
   \<and> mset (concat (map (\<lambda>p. tasks_of (list_tasks example_env example_db 1
          (unfiltered\<lparr>q_search := Some '' a.c '', q_status := Some '''', q_limit := Some 1,
                      q_page := Some p\<rparr>))) [1..2])) =
      mset [example_task 1 1 ''abc'' Todo High, example_task 3 1 ''a.c'' Done Low]
   \<and> sum_list (map (\<lambda>p. length (tasks_of (list_tasks example_env example_db 1
          (unfiltered\<lparr>q_search := Some '' a.c '', q_status := Some '''', q_limit := Some 1,
                      q_page := Some p\<rparr>)))) [1..2]) = 2"
proof -
  let ?m = "search_re [One (Lit CHR ''a''), One AnyChar, One (Lit CHR ''c'')]"
  let ?q = "unfiltered\<lparr>q_search := Some '' a.c '', q_status := Some '''', q_limit := Some 1\<rparr>"
  let ?sel = "[example_task 1 1 ''abc'' Todo High, example_task 3 1 ''a.c'' Done Low]"
  have tr: "trim example_env '' a.c '' = ''a.c''"
    by (simp add: example_env_def trim_spaces_def is_space_def)
  have re: "regexCompile example_env ''a.c'' = Some ?m"
    by (simp add: example_env_def example_regex_def is_meta_def lower_def)
  have h1: "case q_search ?q of None \<Rightarrow> True
            | Some s \<Rightarrow> trim example_env s = [] \<or> regexCompile example_env (trim example_env s) = Some ?m"
    by (simp add: tr re)
  have h2: "case q_sortBy ?q of None \<Rightarrow> True
            | Some s \<Rightarrow> s \<in> set [''createdAt'', ''dueDate'', ''priority'', ''title'']"
    by (simp add: unfiltered_def)
  have h3: "(case q_limit ?q of None \<Rightarrow> 10 | Some v \<Rightarrow> v) = 1" by simp
  have h4: "(1::int) \<le> 1" "(1::int) \<le> 100" by simp_all
  have h5: "length (tasks example_db) < 2 ^ 52" by (simp add: example_db_def)
  have sel: "filter (selects example_env ?m 1 ?q) (tasks example_db) = ?sel"
    by (simp add: selects_def tr example_db_def example_task_def unfiltered_def lower_def)
  have h6: "2 = length (filter (selects example_env ?m 1 ?q) (tasks example_db))"
    by (simp only: sel) simp
  have h7: "(2::int) = \<lceil>real 2 / real_of_int 1\<rceil>" by simp
  note t = list_tasks_pagination [OF h1 h2 h3 h4 h5 h6 h7]
  have a: "\<exists>ts. list_tasks example_env example_db 1 (?q\<lparr>q_page := Some 2\<rparr>) =
        Respond 200 (TaskList ts \<lparr>pg_total = 2, pg_page = 2, pg_pages = Some 2, pg_limit = 1\<rparr>)"
    using t by simp
  have b: "mset (concat (map (\<lambda>p. tasks_of (list_tasks example_env example_db 1 (?q\<lparr>q_page := Some p\<rparr>))) [1..2]))
      = mset ?sel"
    using t by (simp only: sel)
  have c: "sum_list (map (\<lambda>p. length (tasks_of (list_tasks example_env example_db 1 (?q\<lparr>q_page := Some p\<rparr>)))) [1..2]) = 2"
    using t by blast
  show ?thesis using tr re sel a b c by simp
qed


subsection \<open>Evaluating the examples\<close>

lemmas example_defs = example_env_def example_db_def example_task_def unfiltered_def
  trim_spaces_def is_space_def
lemmas regex_defs = example_regex_def is_meta_def lower_def
lemmas list_defs = list_tasks_def build_filter_def truthy_def find_tasks_def
  matches_def sort_tasks_def sort_field_of_def sort_by_def limit_docs_def ceil_div_def safe_int_def

lemma trim_spaces_examples:
  "trim_spaces '' Buy milk '' = ''Buy milk''"
  "trim_spaces (CHR 0xA0 # ''x'' @ [CHR 0xA0]) = ''x''"
  "trim_spaces [CHR 0xA0] = []"
  by (simp_all add: trim_spaces_def is_space_def)


subsection \<open>The list request: validation and search\<close>

lemma list_tasks_never_rejects: "list_tasks env db u q \<noteq> Respond 400 pl"
  by (simp add: list_tasks_def Let_def split: option.splits)

text \<open>
  C5. The claim: a list request with a parameter outside its bounds is rejected as a
  validation error. The handler answers no request with status 400
  (\<open>list_tasks_never_rejects\<close>); a page size of 1000 with a sort key outside the four
  fields, and a status outside the enum with an unknown sort direction, are both run
  against the store and answered with status 200.
\<close>

theorem list_tasks_out_of_range:
  "list_tasks example_env example_db 1 (unfiltered\<lparr>q_limit := Some 1000, q_sortBy := Some ''user''\<rparr>) =
     Respond 200 (TaskList
       [example_task 1 1 ''abc'' Todo High, example_task 3 1 ''a.c'' Done Low,
        example_task 4 1 ''Call Bob'' InProgress Medium]
       \<lparr>pg_total = 3, pg_page = 1, pg_pages = Some 1, pg_limit = 1000\<rparr>)
   \<and> list_tasks example_env example_db 1 (unfiltered\<lparr>q_status := Some ''archived'', q_order := Some ''up''\<rparr>) =
     Respond 200 (TaskList [] \<lparr>pg_total = 0, pg_page = 1, pg_pages = Some 0, pg_limit = 10\<rparr>)"
  by (simp add: list_defs example_defs)

text \<open>The store's refusal of a sort key is answered 500 by the handler's \<open>catch\<close>.\<close>

lemma list_tasks_empty_sort_key:
  "list_tasks example_env example_db 1 (unfiltered\<lparr>q_sortBy := Some []\<rparr>) =
     Respond 500 (Error ''Failed to fetch tasks.'')"
  by (simp add: list_defs example_defs)

lemma list_tasks_bad_pattern:
  assumes "truthy (map_option (trim env) (q_search q)) = Some pat" and "regexCompile env pat = None"
  shows "list_tasks env db u q = Unhandled"
  using assms by (simp add: list_tasks_def build_filter_def)

text \<open>
  C10. The search text is a pattern: with the pattern \<open>a.c\<close> the list holds the task
  titled \<open>abc\<close>, which literal matching does not select. A pattern that does not
  compile (\<open>(\<close>) makes the handler throw while it builds the filter, before its
  \<open>try\<close> block: the exception leaves the handler and no response, in particular no
  status 500, is written.
\<close>

theorem list_tasks_search_is_regex:
  "tasks_of (list_tasks example_env example_db 1 (unfiltered\<lparr>q_search := Some ''a.c''\<rparr>)) =
     [example_task 3 1 ''a.c'' Done Low, example_task 1 1 ''abc'' Todo High]
   \<and> filter (literal_matches ''a.c'') (filter (\<lambda>t. user t = 1) (tasks example_db)) =
     [example_task 3 1 ''a.c'' Done Low]
   \<and> list_tasks example_env example_db 1 (unfiltered\<lparr>q_search := Some ''(''\<rparr>) = Unhandled"
proof -
  have bad: "list_tasks example_env example_db 1 (unfiltered\<lparr>q_search := Some ''(''\<rparr>) = Unhandled"
    by (rule list_tasks_bad_pattern [where pat = "''(''"])
       (simp_all add: truthy_def example_defs regex_defs)
  have re: "tasks_of (list_tasks example_env example_db 1 (unfiltered\<lparr>q_search := Some ''a.c''\<rparr>)) =
     [example_task 3 1 ''a.c'' Done Low, example_task 1 1 ''abc'' Todo High]"
    by (simp add: list_defs example_defs regex_defs tasks_of_def)
  have lit: "filter (literal_matches ''a.c'') (filter (\<lambda>t. user t = 1) (tasks example_db)) =
     [example_task 3 1 ''a.c'' Done Low]"
    by (simp add: example_defs literal_matches_def literal_search_def lower_def)
  show ?thesis using bad re lit by simp
qed


subsection \<open>Ownership and the not-found answer\<close>

lemmas body_defs = empty_body_def validate_update_def validate_create_def optional_def check_def isIn_def
  is_array_def trim_spaces_def is_space_def sanitize_body_def cast_body_def cast_enum_def cast_tags_def
  status_of_string_def priority_of_string_def

lemma find_None_iff_not_owned:
  "find (owned_by u i) ts = None \<longleftrightarrow> (\<forall>t\<in>set ts. task_id t = i \<longrightarrow> user t \<noteq> u)"
  by (auto simp: find_None_iff owned_by_def)

lemma find_delete_first:
  "distinct (map task_id ts) \<Longrightarrow> find (owned_by u i) (delete_first (owned_by u i) ts) = None"
proof (induction ts)
  case Nil
  then show ?case by simp
next
  case (Cons t ts)
  show ?case
  proof (cases "owned_by u i t")
    case True
    then have "task_id t = i" by (simp add: owned_by_def)
    with Cons.prems have "\<forall>x\<in>set ts. task_id x \<noteq> i" by (auto simp: image_iff)
    then have "find (owned_by u i) ts = None" by (auto simp: find_None_iff owned_by_def)
    with True show ?thesis by simp
  next
    case False
    with Cons show ?thesis by simp
  qed
qed

text \<open>
  C2 (as amended). For every owner \<open>u\<close> and every well-formed task id \<open>i\<close> such that no
  task with id \<open>i\<close> is owned by \<open>u\<close> (there is none, or it belongs to another user):
  get and delete answer 404 "Task not found." and leave the store as it is, and so
  does update when its body passes the validation chains of the route, its sanitized
  values cast to the types of the schema (to the update \<open>up\<close>) and \<open>up\<close> passes the
  update validators of the schema, which run before the query. In the two cases get,
  update and delete give the same answer, whatever the body. With unique identifiers,
  deleting a task and deleting it again is answered 404 the second time.
\<close>

theorem not_owned_is_not_found:
  "((\<forall>t\<in>set (tasks db). task_id t = i \<longrightarrow> user t \<noteq> u) \<longrightarrow>
      get_task db u (WellFormed i) = Respond 404 (Error ''Task not found.'')
      \<and> delete_task db u (WellFormed i) = (db, Respond 404 (Error ''Task not found.''))
      \<and> (validate_update env b = [] \<and> cast_body (sanitize_body env b) = Some up \<and> schemaValidateUpdate env up \<longrightarrow>
           put_task env db u (WellFormed i) b = (db, Respond 404 (Error ''Task not found.''))))
   \<and> ((\<forall>t\<in>set (tasks db). task_id t = i \<longrightarrow> user t \<noteq> u)
        \<and> (\<forall>t\<in>set (tasks db2). task_id t = i \<longrightarrow> user t \<noteq> u) \<longrightarrow>
      get_task db u (WellFormed i) = get_task db2 u (WellFormed i)
      \<and> snd (delete_task db u (WellFormed i)) = snd (delete_task db2 u (WellFormed i))
      \<and> snd (put_task env db u (WellFormed i) b) = snd (put_task env db2 u (WellFormed i) b))
   \<and> (distinct (map task_id (tasks db)) \<and> snd (delete_task db u (WellFormed i)) = Respond 200 (Message ''Task deleted successfully.'') \<longrightarrow>
      snd (delete_task (fst (delete_task db u (WellFormed i))) u (WellFormed i)) = Respond 404 (Error ''Task not found.''))"
proof (intro conjI impI)
  assume "\<forall>t\<in>set (tasks db). task_id t = i \<longrightarrow> user t \<noteq> u"
  then have n: "find (owned_by u i) (tasks db) = None" by (simp add: find_None_iff_not_owned)
  show "get_task db u (WellFormed i) = Respond 404 (Error ''Task not found.'')"
    by (simp add: get_task_def n)
  show "delete_task db u (WellFormed i) = (db, Respond 404 (Error ''Task not found.''))"
    by (simp add: delete_task_def n)
  assume "validate_update env b = [] \<and> cast_body (sanitize_body env b) = Some up \<and> schemaValidateUpdate env up"
  then show "put_task env db u (WellFormed i) b = (db, Respond 404 (Error ''Task not found.''))"
    by (simp add: put_task_def n)
next
  assume a: "(\<forall>t\<in>set (tasks db). task_id t = i \<longrightarrow> user t \<noteq> u)
        \<and> (\<forall>t\<in>set (tasks db2). task_id t = i \<longrightarrow> user t \<noteq> u)"
  then have n: "find (owned_by u i) (tasks db) = None" "find (owned_by u i) (tasks db2) = None"
    by (simp_all add: find_None_iff_not_owned)
  show "get_task db u (WellFormed i) = get_task db2 u (WellFormed i)"
    by (simp add: get_task_def n)
  show "snd (delete_task db u (WellFormed i)) = snd (delete_task db2 u (WellFormed i))"
    by (simp add: delete_task_def n)
  show "snd (put_task env db u (WellFormed i) b) = snd (put_task env db2 u (WellFormed i) b)"
    by (simp add: put_task_def n Let_def split: option.splits)
next
  assume a: "distinct (map task_id (tasks db)) \<and>
     snd (delete_task db u (WellFormed i)) = Respond 200 (Message ''Task deleted successfully.'')"
  then have "fst (delete_task db u (WellFormed i)) = db\<lparr>tasks := delete_first (owned_by u i) (tasks db)\<rparr>"
    by (auto simp: delete_task_def split: option.splits)
  then show "snd (delete_task (fst (delete_task db u (WellFormed i))) u (WellFormed i)) = Respond 404 (Error ''Task not found.'')"
    using a by (simp add: delete_task_def find_delete_first)
qed

theorem not_owned_is_not_found_witness:
  "get_task example_db 1 (WellFormed 2) = Respond 404 (Error ''Task not found.'')
   \<and> delete_task example_db 1 (WellFormed 2) = (example_db, Respond 404 (Error ''Task not found.''))
   \<and> put_task example_env example_db 1 (WellFormed 2) (empty_body\<lparr>b_status := Some ''done''\<rparr>)
       = (example_db, Respond 404 (Error ''Task not found.''))
   \<and> get_task example_db 1 (WellFormed 2) = get_task (example_db\<lparr>tasks := []\<rparr>) 1 (WellFormed 2)
   \<and> snd (delete_task example_db 1 (WellFormed 1)) = Respond 200 (Message ''Task deleted successfully.'')
   \<and> snd (delete_task (fst (delete_task example_db 1 (WellFormed 1))) 1 (WellFormed 1))
       = Respond 404 (Error ''Task not found.'')"
proof -
  let ?b = "empty_body\<lparr>b_status := Some ''done''\<rparr>"
  let ?up = "\<lparr>u_user = None, u_title = None, u_description = None, u_status = Some Done,
              u_priority = None, u_dueDate = None, u_tags = None\<rparr>"
  have h1: "\<forall>t\<in>set (tasks example_db). task_id t = 2 \<longrightarrow> user t \<noteq> 1"
    by (simp add: example_defs)
  have h2: "\<forall>t\<in>set (tasks (example_db\<lparr>tasks := []\<rparr>)). task_id t = 2 \<longrightarrow> user t \<noteq> 1"
    by simp
  have h3: "validate_update example_env ?b = [] \<and> cast_body (sanitize_body example_env ?b) = Some ?up
            \<and> schemaValidateUpdate example_env ?up"
    by (simp add: body_defs example_env_def)
  have h4: "distinct (map task_id (tasks example_db))"
    by (simp add: example_defs)
  have h5: "snd (delete_task example_db 1 (WellFormed 1)) = Respond 200 (Message ''Task deleted successfully.'')"
    by (simp add: delete_task_def owned_by_def example_defs)
  note T1 = not_owned_is_not_found [of example_db 2 1 example_env ?b ?up "example_db\<lparr>tasks := []\<rparr>"]
  note T2 = not_owned_is_not_found [of example_db 1 1 example_env ?b ?up example_db]
  from T1 h1 have a: "get_task example_db 1 (WellFormed 2) = Respond 404 (Error ''Task not found.'')
      \<and> delete_task example_db 1 (WellFormed 2) = (example_db, Respond 404 (Error ''Task not found.''))"
    by blast
  from T1 h1 h3 have b: "put_task example_env example_db 1 (WellFormed 2) ?b
      = (example_db, Respond 404 (Error ''Task not found.''))"
    by blast
  from T1 h1 h2 have c: "get_task example_db 1 (WellFormed 2) = get_task (example_db\<lparr>tasks := []\<rparr>) 1 (WellFormed 2)"
    by blast
  from T2 h4 h5 have d: "snd (delete_task (fst (delete_task example_db 1 (WellFormed 1))) 1 (WellFormed 1))
       = Respond 404 (Error ''Task not found.'')"
    by blast
  show ?thesis using a b c d h5 by blast
qed

text \<open>
  The claim as stated, for every task id and every request, fails: an id that is no
  ObjectId is answered 500, and an update whose body fails validation is answered 400
  before any task is looked up, for a task of another user and for no task alike.
\<close>

theorem not_found_counterexample:
  "get_task example_db 1 Malformed = Respond 500 (Error ''Failed to fetch task.'')
   \<and> delete_task example_db 1 Malformed = (example_db, Respond 500 (Error ''Failed to delete task.''))
   \<and> put_task example_env example_db 1 (WellFormed 2) (empty_body\<lparr>b_title := Some []\<rparr>)
       = (example_db, Respond 400 (Errors [(''title'', ''Invalid value'')]))
   \<and> put_task example_env example_db 1 (WellFormed 9) (empty_body\<lparr>b_title := Some []\<rparr>)
       = (example_db, Respond 400 (Errors [(''title'', ''Invalid value'')]))"
  by (simp add: get_task_def delete_task_def put_task_def body_defs example_env_def)


subsection \<open>Updates\<close>

lemma status_of_string_inv: "status_of_string s = Some st \<Longrightarrow> string_of_status st = s"
  by (auto simp: status_of_string_def split: if_splits)

lemma priority_of_string_inv: "priority_of_string s = Some pr \<Longrightarrow> string_of_priority pr = s"
  by (auto simp: priority_of_string_def split: if_splits)

lemma status_of_string_inv': "Some st = status_of_string s \<Longrightarrow> string_of_status st = s"
  by (rule status_of_string_inv) simp

lemma priority_of_string_inv': "Some pr = priority_of_string s \<Longrightarrow> string_of_priority pr = s"
  by (rule priority_of_string_inv) simp

lemma cast_enum_Some:
  "cast_enum parse v = Some r \<Longrightarrow>
     (case v of None \<Rightarrow> r = None | Some s \<Rightarrow> \<exists>x. r = Some x \<and> parse s = Some x)"
proof (cases v)
  case None
  assume "cast_enum parse v = Some r"
  with None show ?thesis by (simp add: cast_enum_def)
next
  case (Some s)
  assume "cast_enum parse v = Some r"
  with Some show ?thesis by (cases "parse s") (auto simp: cast_enum_def)
qed

lemma cast_tags_Some:
  "cast_tags v = Some r \<Longrightarrow>
     (case v of None \<Rightarrow> r = None | Some w \<Rightarrow> \<exists>ts. r = Some ts \<and> w = TagsArray ts)"
  by (auto simp: cast_tags_def split: option.splits tags_value.splits)

lemma cast_body_Some:
  assumes "cast_body b = Some up"
  shows "cast_enum status_of_string (b_status b) = Some (u_status up)"
    and "cast_enum priority_of_string (b_priority b) = Some (u_priority up)"
    and "cast_tags (b_tags b) = Some (u_tags up)"
    and "u_user up = b_user b" and "u_title up = b_title b"
    and "u_description up = b_description b" and "u_dueDate up = b_dueDate b"
  using assms by (auto simp: cast_body_def split: option.splits)

lemma cast_body_fields:
  assumes "cast_body b = Some up"
  shows "case b_status b of None \<Rightarrow> u_status up = None
         | Some s \<Rightarrow> \<exists>st. u_status up = Some st \<and> string_of_status st = s"
    and "case b_priority b of None \<Rightarrow> u_priority up = None
         | Some s \<Rightarrow> \<exists>pr. u_priority up = Some pr \<and> string_of_priority pr = s"
    and "case b_tags b of None \<Rightarrow> u_tags up = None | Some v \<Rightarrow> \<exists>ts. u_tags up = Some ts \<and> v = TagsArray ts"
proof -
  note c = cast_body_Some [OF assms]
  show "case b_status b of None \<Rightarrow> u_status up = None
         | Some s \<Rightarrow> \<exists>st. u_status up = Some st \<and> string_of_status st = s"
    using cast_enum_Some [OF c(1)] by (auto split: option.splits dest: status_of_string_inv)
  show "case b_priority b of None \<Rightarrow> u_priority up = None
         | Some s \<Rightarrow> \<exists>pr. u_priority up = Some pr \<and> string_of_priority pr = s"
    using cast_enum_Some [OF c(2)] by (auto split: option.splits dest: priority_of_string_inv)
  show "case b_tags b of None \<Rightarrow> u_tags up = None | Some v \<Rightarrow> \<exists>ts. u_tags up = Some ts \<and> v = TagsArray ts"
    using cast_tags_Some [OF c(3)] by simp
qed

lemma validate_update_cast:
  assumes "validate_update env b = []"
  shows "\<exists>up. cast_body (sanitize_body env b) = Some up"
proof -
  have s: "case b_status b of None \<Rightarrow> True | Some s \<Rightarrow> status_of_string s \<noteq> None"
    using assms
    by (auto simp: validate_update_def optional_def check_def isIn_def status_of_string_def
             split: option.splits if_splits)
  have p: "case b_priority b of None \<Rightarrow> True | Some s \<Rightarrow> priority_of_string s \<noteq> None"
    using assms
    by (auto simp: validate_update_def optional_def check_def isIn_def priority_of_string_def
             split: option.splits if_splits)
  have t: "case b_tags b of None \<Rightarrow> True | Some v \<Rightarrow> is_array v"
    using assms
    by (auto simp: validate_update_def optional_def check_def split: option.splits if_splits)
  show ?thesis
    using s p t
    by (auto simp: cast_body_def cast_enum_def cast_tags_def sanitize_body_def is_array_def
             split: option.splits tags_value.splits)
qed

lemma update_first_mem:
  "find P xs = Some x \<Longrightarrow> f x \<in> set (update_first P f xs)"
  by (induction xs) (auto split: if_splits)

text \<open>
  C9 (as amended). For every task the requester owns and every update request whose
  body passes the validation chains of the route, whose sanitized values cast to the
  types of the schema (to the update \<open>up\<close>) and whose update \<open>up\<close> passes the update
  validators of the schema, the answer is 200 with the updated record, which is
  stored. In it a supplied title or description has the supplied value as the
  validation library's \<open>trim()\<close> leaves it; a supplied status, priority, due date or tag
  array has the supplied value; each of these six fields that is not supplied, the
  identifier and the creation time keep their prior values.
\<close>

theorem put_task_patch:
  assumes "find (owned_by u i) (tasks db) = Some t"
    and "validate_update env b = []"
    and "cast_body (sanitize_body env b) = Some up"
    and "schemaValidateUpdate env up"
  shows "\<exists>db' t'. put_task env db u (WellFormed i) b = (db', Respond 200 (TaskPayload t'))
     \<and> title t' = (case b_title b of None \<Rightarrow> title t | Some s \<Rightarrow> trim env s)
     \<and> description t' = (case b_description b of None \<Rightarrow> description t | Some s \<Rightarrow> Some (trim env s))
     \<and> (case b_status b of None \<Rightarrow> status t' = status t | Some s \<Rightarrow> string_of_status (status t') = s)
     \<and> (case b_priority b of None \<Rightarrow> priority t' = priority t | Some s \<Rightarrow> string_of_priority (priority t') = s)
     \<and> dueDate t' = (case b_dueDate b of None \<Rightarrow> dueDate t | Some d \<Rightarrow> Some d)
     \<and> (case b_tags b of None \<Rightarrow> tags t' = tags t | Some v \<Rightarrow> v = TagsArray (tags t'))
     \<and> task_id t' = task_id t \<and> createdAt t' = createdAt t
     \<and> t' \<in> set (tasks db')"
proof -
  let ?t' = "apply_update up (now db) t"
  let ?db' = "db\<lparr>tasks := update_first (owned_by u i) (apply_update up (now db)) (tasks db), now := Suc (now db)\<rparr>"
  have r: "put_task env db u (WellFormed i) b = (?db', Respond 200 (TaskPayload ?t'))"
    using assms by (simp add: put_task_def)
  note c = cast_body_Some [OF assms(3)]
  note f = cast_body_fields [OF assms(3)]
  have 1: "title ?t' = (case b_title b of None \<Rightarrow> title t | Some s \<Rightarrow> trim env s)"
    using c(5) by (simp add: apply_update_def sanitize_body_def split: option.splits)
  have 2: "description ?t' = (case b_description b of None \<Rightarrow> description t | Some s \<Rightarrow> Some (trim env s))"
    using c(6) by (simp add: apply_update_def sanitize_body_def split: option.splits)
  have 3: "case b_status b of None \<Rightarrow> status ?t' = status t | Some s \<Rightarrow> string_of_status (status ?t') = s"
    using f(1) by (auto simp: apply_update_def sanitize_body_def split: option.splits)
  have 4: "case b_priority b of None \<Rightarrow> priority ?t' = priority t | Some s \<Rightarrow> string_of_priority (priority ?t') = s"
    using f(2) by (auto simp: apply_update_def sanitize_body_def split: option.splits)
  have 5: "dueDate ?t' = (case b_dueDate b of None \<Rightarrow> dueDate t | Some d \<Rightarrow> Some d)"
    using c(7) by (simp add: apply_update_def sanitize_body_def split: option.splits)
  have 6: "case b_tags b of None \<Rightarrow> tags ?t' = tags t | Some v \<Rightarrow> v = TagsArray (tags ?t')"
    using f(3) by (auto simp: apply_update_def sanitize_body_def split: option.splits)
  have 7: "task_id ?t' = task_id t \<and> createdAt ?t' = createdAt t"
    by (simp add: apply_update_def)
  have 8: "?t' \<in> set (tasks ?db')"
    using update_first_mem [OF assms(1)] by simp
  show ?thesis using r 1 2 3 4 5 6 7 8 by blast
qed

theorem put_task_patch_witness:
  "find (owned_by 1 1) (tasks example_db) = Some (example_task 1 1 ''abc'' Todo High)
   \<and> validate_update example_env (empty_body\<lparr>b_title := Some '' Buy milk '', b_status := Some ''done''\<rparr>) = []
   \<and> (\<exists>db' t'. put_task example_env example_db 1 (WellFormed 1)
                    (empty_body\<lparr>b_title := Some '' Buy milk '', b_status := Some ''done''\<rparr>) =
                  (db', Respond 200 (TaskPayload t'))
         \<and> title t' = ''Buy milk'' \<and> string_of_status (status t') = ''done'' \<and> priority t' = High
         \<and> t' \<in> set (tasks db'))"
proof -
  let ?b = "empty_body\<lparr>b_title := Some '' Buy milk '', b_status := Some ''done''\<rparr>"
  let ?up = "\<lparr>u_user = None, u_title = Some ''Buy milk'', u_description = None, u_status = Some Done,
              u_priority = None, u_dueDate = None, u_tags = None\<rparr>"
  let ?t = "example_task 1 1 ''abc'' Todo High"
  have h1: "find (owned_by 1 1) (tasks example_db) = Some ?t"
    by (simp add: owned_by_def example_defs)
  have h2: "validate_update example_env ?b = []" by (simp add: body_defs example_env_def)
  have h3: "cast_body (sanitize_body example_env ?b) = Some ?up" by (simp add: body_defs example_env_def)
  have h4: "schemaValidateUpdate example_env ?up" by (simp add: example_env_def)
  have tr: "trim example_env '' Buy milk '' = ''Buy milk''"
    by (simp add: example_env_def trim_spaces_def is_space_def)
  have b: "b_title ?b = Some '' Buy milk ''" "b_status ?b = Some ''done''" "b_priority ?b = None"
    by (simp_all add: empty_body_def)
  have t: "title ?t = ''abc''" "priority ?t = High" by (simp_all add: example_task_def)
  from put_task_patch [OF h1 h2 h3 h4]
  have "\<exists>db' t'. put_task example_env example_db 1 (WellFormed 1) ?b = (db', Respond 200 (TaskPayload t'))
         \<and> title t' = ''Buy milk'' \<and> string_of_status (status t') = ''done'' \<and> priority t' = High
         \<and> t' \<in> set (tasks db')"
    unfolding b t by (simp add: tr) blast
  with h1 h2 show ?thesis by blast
qed

text \<open>
  The claim as stated fails for a title with white space around it: the record holds
  the trimmed title, not the supplied value.
\<close>

theorem put_task_patch_counterexample:
  "put_task example_env example_db 1 (WellFormed 1) (empty_body\<lparr>b_title := Some '' Buy milk ''\<rparr>) =
     (example_db\<lparr>tasks := [(example_task 1 1 ''Buy milk'' Todo High)\<lparr>updatedAt := 5\<rparr>,
                             example_task 2 2 ''Buy milk'' Todo Medium,
                             example_task 3 1 ''a.c'' Done Low,
                             example_task 4 1 ''Call Bob'' InProgress Medium],
                   now := 6\<rparr>,
      Respond 200 (TaskPayload ((example_task 1 1 ''Buy milk'' Todo High)\<lparr>updatedAt := 5\<rparr>)))
   \<and> title ((example_task 1 1 ''Buy milk'' Todo High)\<lparr>updatedAt := 5\<rparr>) \<noteq> '' Buy milk ''"
  by (simp add: put_task_def body_defs apply_update_def owned_by_def example_defs)


subsection \<open>The owner of a task\<close>

text \<open>Creation stamps the requester as the owner, whatever the body says.\<close>

lemma post_task_stamps_owner:
  assumes "post_task env db u b = (db', Respond 201 (TaskPayload t))"
  shows "user t = u" and "tasks db' = tasks db @ [t]"
  using assms
  by (auto simp: post_task_def Task_create_def Let_def split: if_splits option.splits prod.splits)

text \<open>
  C1. The claim: no update changes the owner of a task, whatever the body supplies.
  The handler of \<open>PUT /:id\<close> passes the body to the store as the update object, so
  a \<open>user\<close> key is set like any other path: user 1 updates task 1 with the body
  \<open>{user: 2}\<close>, the answer is 200, and from then on user 2 reads the task and user 1
  is answered 404.
\<close>

theorem put_task_reassigns_owner:
  "put_task example_env example_db 1 (WellFormed 1) (empty_body\<lparr>b_user := Some 2\<rparr>) =
     (example_db\<lparr>tasks := [(example_task 1 2 ''abc'' Todo High)\<lparr>updatedAt := 5\<rparr>,
                             example_task 2 2 ''Buy milk'' Todo Medium,
                             example_task 3 1 ''a.c'' Done Low,
                             example_task 4 1 ''Call Bob'' InProgress Medium],
                   now := 6\<rparr>,
      Respond 200 (TaskPayload ((example_task 1 2 ''abc'' Todo High)\<lparr>updatedAt := 5\<rparr>)))
   \<and> get_task (fst (put_task example_env example_db 1 (WellFormed 1) (empty_body\<lparr>b_user := Some 2\<rparr>))) 2 (WellFormed 1)
       = Respond 200 (TaskPayload ((example_task 1 2 ''abc'' Todo High)\<lparr>updatedAt := 5\<rparr>))
   \<and> get_task (fst (put_task example_env example_db 1 (WellFormed 1) (empty_body\<lparr>b_user := Some 2\<rparr>))) 1 (WellFormed 1)
       = Respond 404 (Error ''Task not found.'')"
proof -
  have r: "put_task example_env example_db 1 (WellFormed 1) (empty_body\<lparr>b_user := Some 2\<rparr>) =
     (example_db\<lparr>tasks := [(example_task 1 2 ''abc'' Todo High)\<lparr>updatedAt := 5\<rparr>,
                             example_task 2 2 ''Buy milk'' Todo Medium,
                             example_task 3 1 ''a.c'' Done Low,
                             example_task 4 1 ''Call Bob'' InProgress Medium],
                   now := 6\<rparr>,
      Respond 200 (TaskPayload ((example_task 1 2 ''abc'' Todo High)\<lparr>updatedAt := 5\<rparr>)))"
    by (simp add: put_task_def body_defs apply_update_def owned_by_def example_defs)
  show ?thesis
    unfolding r by (simp add: get_task_def owned_by_def example_defs)
qed


subsection \<open>Validation of a creation request\<close>

lemma check_Nil: "check ok field msg = [] \<longleftrightarrow> ok"
  by (simp add: check_def)

lemma optional_Nil:
  "optional v chain = [] \<longleftrightarrow> (case v of None \<Rightarrow> True | Some x \<Rightarrow> chain x = [])"
  by (simp add: optional_def split: option.splits)

lemma fields_check: "set (map fst (check ok field msg)) \<subseteq> {field}"
  by (simp add: check_def)

text \<open>
  C4 (as amended). A creation request passes validation exactly when the title is
  present and, as the validation library's \<open>trim()\<close> leaves it, not empty and at most
  100 characters long, the description (if present), as \<open>trim()\<close> leaves it, is at most
  500 characters long, status and priority (if present) are in their enums, the due
  date (if present) is well-formed and the tags (if present) are an array. Every other
  request is answered 400 with the list of field-level errors, each naming one of
  these fields, and the store is left as it is. The number of tags is not checked.
\<close>

theorem post_task_validation:
  "(validate_create env b = [] \<longleftrightarrow>
       (case b_title b of None \<Rightarrow> False | Some s \<Rightarrow> trim env s \<noteq> [] \<and> length (trim env s) \<le> 100)
     \<and> (case b_description b of None \<Rightarrow> True | Some d \<Rightarrow> length (trim env d) \<le> 500)
     \<and> (case b_status b of None \<Rightarrow> True | Some s \<Rightarrow> s = ''todo'' \<or> s = ''in-progress'' \<or> s = ''done'')
     \<and> (case b_priority b of None \<Rightarrow> True | Some p \<Rightarrow> p = ''low'' \<or> p = ''medium'' \<or> p = ''high'')
     \<and> (case b_dueDate b of None \<Rightarrow> True | Some d \<Rightarrow> isISO8601 env d)
     \<and> (case b_tags b of None \<Rightarrow> True | Some v \<Rightarrow> is_array v))
   \<and> (validate_create env b \<noteq> [] \<longrightarrow>
         post_task env db u b = (db, Respond 400 (Errors (validate_create env b))))
   \<and> set (map fst (validate_create env b)) \<subseteq> set create_fields"
proof (intro conjI)
  show "validate_create env b = [] \<longleftrightarrow>
       (case b_title b of None \<Rightarrow> False | Some s \<Rightarrow> trim env s \<noteq> [] \<and> length (trim env s) \<le> 100)
     \<and> (case b_description b of None \<Rightarrow> True | Some d \<Rightarrow> length (trim env d) \<le> 500)
     \<and> (case b_status b of None \<Rightarrow> True | Some s \<Rightarrow> s = ''todo'' \<or> s = ''in-progress'' \<or> s = ''done'')
     \<and> (case b_priority b of None \<Rightarrow> True | Some p \<Rightarrow> p = ''low'' \<or> p = ''medium'' \<or> p = ''high'')
     \<and> (case b_dueDate b of None \<Rightarrow> True | Some d \<Rightarrow> isISO8601 env d)
     \<and> (case b_tags b of None \<Rightarrow> True | Some v \<Rightarrow> is_array v)"
    by (simp add: validate_create_def Let_def check_Nil optional_Nil isIn_def
             split: option.splits)
  show "validate_create env b \<noteq> [] \<longrightarrow>
         post_task env db u b = (db, Respond 400 (Errors (validate_create env b)))"
    by (simp add: post_task_def Let_def)
  show "set (map fst (validate_create env b)) \<subseteq> set create_fields"
    by (auto simp: validate_create_def Let_def check_def optional_def create_fields_def
             split: option.splits if_splits)
qed

theorem post_task_validation_witness:
  "validate_create example_env (empty_body\<lparr>b_dueDate := Some ''tomorrow''\<rparr>) \<noteq> []
   \<and> post_task example_env example_db 1 (empty_body\<lparr>b_dueDate := Some ''tomorrow''\<rparr>) =
       (example_db, Respond 400 (Errors [(''title'', ''Title is required''), (''dueDate'', ''Invalid date format'')]))"
proof -
  let ?b = "empty_body\<lparr>b_dueDate := Some ''tomorrow''\<rparr>"
  have v: "validate_create example_env ?b = [(''title'', ''Title is required''), (''dueDate'', ''Invalid date format'')]"
    by (simp add: body_defs example_env_def)
  then have h: "validate_create example_env ?b \<noteq> []" by simp
  from post_task_validation [of example_env ?b example_db 1] h
  have "post_task example_env example_db 1 ?b = (example_db, Respond 400 (Errors (validate_create example_env ?b)))"
    by blast
  then show ?thesis using h by (simp only: v) simp
qed

lemma six_tags_not_rejected:
  assumes "trim env ''Buy milk'' = ''Buy milk''"
  shows "snd (post_task env db u six_tags) \<noteq> Respond 400 pl"
proof -
  have "validate_create env six_tags = []"
    using assms by (simp add: six_tags_def body_defs)
  then show ?thesis
    by (simp add: post_task_def Let_def split: option.splits prod.splits)
qed

text \<open>
  The claim as stated fails for a request with six tags: it passes validation, and
  the answer is 201 with the task created, or 500 where the schema refuses the
  document, never a validation error.
\<close>

theorem post_task_validation_counterexample:
  "validate_create example_env six_tags = []
   \<and> post_task example_env example_db 1 six_tags =
       (example_db\<lparr>tasks := tasks example_db @
            [(example_task 5 1 ''Buy milk'' Todo Medium)\<lparr>tags := [''a'', ''b'', ''c'', ''d'', ''e'', ''f'']\<rparr>],
          next_oid := 6, now := 6\<rparr>,
        Respond 201 (TaskPayload ((example_task 5 1 ''Buy milk'' Todo Medium)\<lparr>tags := [''a'', ''b'', ''c'', ''d'', ''e'', ''f'']\<rparr>)))
   \<and> post_task (example_env\<lparr>schemaValidate := (\<lambda>t. length (tags t) \<le> 5)\<rparr>) example_db 1 six_tags =
       (example_db, Respond 500 (Error ''Failed to create task.''))"
  by (simp add: post_task_def Task_create_def Let_def six_tags_def body_defs example_defs)

text \<open>A title of white space only is no title, for the no-break space as for the space.\<close>

lemma no_break_space_title:
  "validate_create example_env (empty_body\<lparr>b_title := Some [CHR 0xA0]\<rparr>) = [(''title'', ''Title is required'')]"
  "validate_update example_env (empty_body\<lparr>b_title := Some [CHR 0xA0]\<rparr>) = [(''title'', ''Invalid value'')]"
  by (simp_all add: body_defs example_env_def)


subsection \<open>Registration and login\<close>

lemmas auth_defs = example_auth_def ann_def no_users_def ann_user_def ann_db_def
  validate_register_def validate_login_def validate_password_def check_def text_of_def has_digit_def
  trimmed_def trim_spaces_def is_space_def sanitize_email_def lower_def findByEmail_def findById_def

lemma validate_register_Nil:
  "validate_register env b = [] \<longleftrightarrow>
     2 \<le> length (trimmed env (r_name b)) \<and> length (trimmed env (r_name b)) \<le> 50
     \<and> trimmed env (r_email b) \<noteq> [] \<and> isEmail env (trimmed env (r_email b))
     \<and> 6 \<le> length (text_of (r_password b)) \<and> has_digit (text_of (r_password b))"
  by (auto simp: validate_register_def check_def)

lemma validate_login_Nil:
  "validate_login env b = [] \<longleftrightarrow>
     trimmed env (l_email b) \<noteq> [] \<and> isEmail env (trimmed env (l_email b))
     \<and> text_of (l_password b) \<noteq> []"
  by (auto simp: validate_login_def check_def)

lemma find_append_new:
  "find P xs = None \<Longrightarrow> P x \<Longrightarrow> find P (xs @ [x]) = Some x"
  by (induction xs) (auto split: if_splits)

text \<open>
  The handler of register answers with the document that \<open>User.create\<close> resolved to,
  as it is: it removes no path from it, where the handler of login removes the
  password.
\<close>

lemma register_forwards_created:
  assumes "validate_register env b = []"
    and "findByEmail db (sanitize_email env (r_email b)) = None"
    and "User_create env db (trimmed env (r_name b)) (sanitize_email env (r_email b))
           (text_of (r_password b)) = Some (db', u)"
  shows "register env db b = (db', AuthRespond 201 (Session (jwtSign env (uid u)) u))"
  using assms by (simp add: register_def sendTokenResponse_def Let_def)

text \<open>
  C3. For every registration request that passes the validation chains and whose
  normalised e-mail address no user has yet, with a hash library under which a
  password matches its own hash: register answers 201 with a token and the new user;
  the user object of the answer holds no password hash; and the login that follows
  with the same e-mail address and password answers 200 with the same user, so the
  same identifier. The user object of the answer of register is the document the User
  model created (\<open>register_forwards_created\<close>), and that it comes without the hash is
  what the specification says of the User model.
\<close>

theorem register_then_login:
  assumes valid: "validate_register env b = []"
    and fresh: "findByEmail db (sanitize_email env (r_email b)) = None"
    and bcrypt: "bcryptCompare env (text_of (r_password b)) (bcryptHash env (text_of (r_password b)))"
  shows "\<exists>db' u. register env db b = (db', AuthRespond 201 (Session (jwtSign env (uid u)) u))
        \<and> password u = None
        \<and> login env db' \<lparr>l_email = r_email b, l_password = r_password b\<rparr>
            = AuthRespond 200 (Session (jwtSign env (uid u)) u)"
proof -
  let ?e = "sanitize_email env (r_email b)"
  let ?pw = "text_of (r_password b)"
  let ?doc = "\<lparr>uid = next_uid db, name = trimmed env (r_name b), email = ?e,
               password = Some (bcryptHash env ?pw), bio = None, role = Standard\<rparr>"
  let ?db' = "db\<lparr>users := users db @ [?doc], next_uid := Suc (next_uid db)\<rparr>"
  let ?u = "without_password ?doc"
  have c: "User_create env db (trimmed env (r_name b)) ?e ?pw = Some (?db', ?u)"
    using fresh by (simp add: User_create_def Let_def)
  have r: "register env db b = (?db', AuthRespond 201 (Session (jwtSign env (uid ?u)) ?u))"
    by (rule register_forwards_created [OF valid fresh c])
  have vl: "validate_login env \<lparr>l_email = r_email b, l_password = r_password b\<rparr> = []"
    using valid by (auto simp: validate_register_Nil validate_login_Nil)
  have f: "findByEmail ?db' ?e = Some ?doc"
    using fresh by (simp add: findByEmail_def find_append_new)
  have l: "login env ?db' \<lparr>l_email = r_email b, l_password = r_password b\<rparr>
            = AuthRespond 200 (Session (jwtSign env (uid ?u)) ?u)"
    using bcrypt by (simp add: login_def vl f comparePassword_def sendTokenResponse_def without_password_def)
  have "password ?u = None" by (simp add: without_password_def)
  with r l show ?thesis by blast
qed

theorem register_then_login_witness:
  "validate_register example_auth ann = []
   \<and> findByEmail no_users (sanitize_email example_auth (r_email ann)) = None
   \<and> register example_auth no_users ann = (ann_db, AuthRespond 201 (Session ''token'' ann_user))
   \<and> password ann_user = None
   \<and> login example_auth ann_db \<lparr>l_email = Some ''Ann@x.com'', l_password = Some ''abc123''\<rparr>
       = AuthRespond 200 (Session ''token'' ann_user)"
proof -
  have h1: "validate_register example_auth ann = []" by (simp add: auth_defs)
  have h2: "findByEmail no_users (sanitize_email example_auth (r_email ann)) = None"
    by (simp add: auth_defs)
  have h4: "bcryptCompare example_auth (text_of (r_password ann)) (bcryptHash example_auth (text_of (r_password ann)))"
    by (simp add: example_auth_def)
  have e: "register example_auth no_users ann = (ann_db, AuthRespond 201 (Session ''token'' ann_user))"
    by (simp add: register_def User_create_def sendTokenResponse_def without_password_def Let_def auth_defs)
  from register_then_login [OF h1 h2 h4]
  obtain db' u where r: "register example_auth no_users ann
        = (db', AuthRespond 201 (Session (jwtSign example_auth (uid u)) u))"
    and p: "password u = None"
    and l: "login example_auth db' \<lparr>l_email = r_email ann, l_password = r_password ann\<rparr>
        = AuthRespond 200 (Session (jwtSign example_auth (uid u)) u)"
    by blast
  from r e have eq: "db' = ann_db" "u = ann_user" by simp_all
  with l have "login example_auth ann_db \<lparr>l_email = r_email ann, l_password = r_password ann\<rparr>
        = AuthRespond 200 (Session (jwtSign example_auth (uid ann_user)) ann_user)" by simp
  then have "login example_auth ann_db \<lparr>l_email = Some ''Ann@x.com'', l_password = Some ''abc123''\<rparr>
       = AuthRespond 200 (Session ''token'' ann_user)"
    by (simp add: ann_def example_auth_def)
  with h1 h2 e p eq show ?thesis by blast
qed


subsection \<open>Changing the password\<close>

lemma find_update_first:
  "find P xs = Some x \<Longrightarrow> P (f x) \<Longrightarrow> find P (update_first P f xs) = Some (f x)"
  by (induction xs) (auto split: if_splits)

text \<open>
  C8 (as amended). For every authenticated user, with the stored hash \<open>h\<close>, and every
  password-change request that passes validation: when the current password does not
  match \<open>h\<close> the answer is 400 "Current password is incorrect." and the store is left
  as it is, so every login is answered as before, the one with the old password too;
  when it matches and the User schema accepts the new password, the answer is 200 and
  the user's stored hash is the hash of the new password.
\<close>

theorem change_password_checks_current:
  assumes auth: "findById db i = Some u"
    and stored: "password u = Some h"
    and valid: "validate_password b = []"
  shows "(\<not> bcryptCompare env (text_of (currentPassword b)) h \<longrightarrow>
            change_password env db i b = (db, AuthRespond 400 (AuthError ''Current password is incorrect.''))
            \<and> login env (fst (change_password env db i b)) lb = login env db lb)
       \<and> (bcryptCompare env (text_of (currentPassword b)) h
            \<and> userSchemaValidate env (name u) (email u) (text_of (newPassword b)) \<longrightarrow>
            snd (change_password env db i b) = AuthRespond 200 (AuthMessage ''Password updated successfully.'')
            \<and> findById (fst (change_password env db i b)) i =
                Some (u\<lparr>password := Some (bcryptHash env (text_of (newPassword b)))\<rparr>))"
proof (intro conjI impI)
  assume "\<not> bcryptCompare env (text_of (currentPassword b)) h"
  then show c: "change_password env db i b = (db, AuthRespond 400 (AuthError ''Current password is incorrect.''))"
    using auth stored valid by (simp add: change_password_def comparePassword_def)
  show "login env (fst (change_password env db i b)) lb = login env db lb"
    by (simp add: c)
next
  assume m: "bcryptCompare env (text_of (currentPassword b)) h
            \<and> userSchemaValidate env (name u) (email u) (text_of (newPassword b))"
  let ?db' = "db\<lparr>users := update_first (\<lambda>x. uid x = uid u)
      (\<lambda>x. x\<lparr>password := Some (bcryptHash env (text_of (newPassword b)))\<rparr>) (users db)\<rparr>"
  have c: "change_password env db i b = (?db', AuthRespond 200 (AuthMessage ''Password updated successfully.''))"
    using auth stored valid m by (simp add: change_password_def comparePassword_def save_password_def)
  show "snd (change_password env db i b) = AuthRespond 200 (AuthMessage ''Password updated successfully.'')"
    by (simp add: c)
  have "uid u = i" using auth by (auto simp: findById_def dest: find_Some_iff [THEN iffD1])
  then show "findById (fst (change_password env db i b)) i =
                Some (u\<lparr>password := Some (bcryptHash env (text_of (newPassword b)))\<rparr>)"
    using auth by (simp add: c findById_def find_update_first)
qed

theorem change_password_checks_current_witness:
  "findById ann_db 1 = Some (ann_user\<lparr>password := Some ''$2a$abc123''\<rparr>)
   \<and> change_password example_auth ann_db 1 \<lparr>currentPassword = Some ''guess1'', newPassword = Some ''hunter2''\<rparr>
       = (ann_db, AuthRespond 400 (AuthError ''Current password is incorrect.''))
   \<and> login example_auth (fst (change_password example_auth ann_db 1
          \<lparr>currentPassword = Some ''guess1'', newPassword = Some ''hunter2''\<rparr>))
        \<lparr>l_email = Some ''ann@x.com'', l_password = Some ''abc123''\<rparr>
       = AuthRespond 200 (Session ''token'' ann_user)
   \<and> findById (fst (change_password example_auth ann_db 1
          \<lparr>currentPassword = Some ''abc123'', newPassword = Some ''hunter2''\<rparr>)) 1
       = Some (ann_user\<lparr>password := Some ''$2a$hunter2''\<rparr>)"
proof -
  let ?wrong = "\<lparr>currentPassword = Some ''guess1'', newPassword = Some ''hunter2''\<rparr>"
  let ?right = "\<lparr>currentPassword = Some ''abc123'', newPassword = Some ''hunter2''\<rparr>"
  let ?lb = "\<lparr>l_email = Some ''ann@x.com'', l_password = Some ''abc123''\<rparr>"
  have h1: "findById ann_db 1 = Some (ann_user\<lparr>password := Some ''$2a$abc123''\<rparr>)"
    by (simp add: auth_defs)
  have h2: "password (ann_user\<lparr>password := Some ''$2a$abc123''\<rparr>) = Some ''$2a$abc123''" by simp
  have v: "validate_password ?wrong = []" "validate_password ?right = []"
    by (simp_all add: auth_defs)
  have w: "\<not> bcryptCompare example_auth (text_of (currentPassword ?wrong)) ''$2a$abc123''"
    by (simp add: auth_defs)
  have r: "bcryptCompare example_auth (text_of (currentPassword ?right)) ''$2a$abc123''"
    by (simp add: auth_defs)
  have l0: "login example_auth ann_db ?lb = AuthRespond 200 (Session ''token'' ann_user)"
    by (simp add: login_def comparePassword_def sendTokenResponse_def auth_defs)
  from change_password_checks_current [OF h1 h2 v(1), of example_auth ?lb] w
  have a: "change_password example_auth ann_db 1 ?wrong
       = (ann_db, AuthRespond 400 (AuthError ''Current password is incorrect.''))"
    and b: "login example_auth (fst (change_password example_auth ann_db 1 ?wrong)) ?lb
       = login example_auth ann_db ?lb"
    by blast+
  have sv: "userSchemaValidate example_auth (name (ann_user\<lparr>password := Some ''$2a$abc123''\<rparr>))
               (email (ann_user\<lparr>password := Some ''$2a$abc123''\<rparr>)) (text_of (newPassword ?right))"
    by (simp add: example_auth_def)
  from change_password_checks_current [OF h1 h2 v(2), of example_auth ?lb] r sv
  have c: "findById (fst (change_password example_auth ann_db 1 ?right)) 1 =
      Some (ann_user\<lparr>password := Some ''$2a$abc123'', password := Some (bcryptHash example_auth (text_of (newPassword ?right)))\<rparr>)"
    by blast
  have c': "findById (fst (change_password example_auth ann_db 1 ?right)) 1
       = Some (ann_user\<lparr>password := Some ''$2a$hunter2''\<rparr>)"
    by (simp only: c) (simp add: example_auth_def text_of_def)
  show ?thesis using h1 a b l0 c' by simp
qed

text \<open>
  The claim as stated fails for a request that does not pass validation: with a wrong
  current password and a new password that is too short the answer is the list of
  field-level errors, not the wrong-password error. The store is left as it is there too.
\<close>

theorem change_password_counterexample:
  "findById ann_db 1 = Some (ann_user\<lparr>password := Some ''$2a$abc123''\<rparr>)
   \<and> \<not> bcryptCompare example_auth ''guess1'' ''$2a$abc123''
   \<and> change_password example_auth ann_db 1 \<lparr>currentPassword = Some ''guess1'', newPassword = Some ''short''\<rparr>
       = (ann_db, AuthRespond 400 (AuthErrors
            [(''newPassword'', ''New password must be at least 6 characters''),
             (''newPassword'', ''New password must contain at least one number'')]))"
  by (simp add: change_password_def auth_defs)


subsection \<open>The store's invariant\<close>

text \<open>Creation, update and deletion keep the identifiers unique.\<close>

lemma map_update_first:
  "(\<And>x. g (f x) = g x) \<Longrightarrow> map g (update_first P f xs) = map g xs"
  by (induction xs) auto

lemma set_delete_first: "set (delete_first P xs) \<subseteq> set xs"
  by (induction xs) auto

lemma distinct_map_delete_first:
  "distinct (map g xs) \<Longrightarrow> distinct (map g (delete_first P xs))"
proof (induction xs)
  case Nil
  then show ?case by simp
next
  case (Cons x xs)
  then show ?case using set_delete_first [of P xs] by (auto simp: image_iff)
qed

lemma list_all_update_first:
  "list_all Q xs \<Longrightarrow> (\<And>x. Q x \<Longrightarrow> Q (f x)) \<Longrightarrow> list_all Q (update_first P f xs)"
  by (induction xs) auto

lemma list_all_delete_first: "list_all Q xs \<Longrightarrow> list_all Q (delete_first P xs)"
  by (induction xs) auto

lemma Task_create_wf:
  assumes "wf_db db" and "Task_create env db up = Some (db', doc)"
  shows "wf_db db'"
proof -
  from assms(2) have d: "tasks db' = tasks db @ [doc]" "next_oid db' = Suc (next_oid db)"
      "task_id doc = next_oid db"
    by (auto simp: Task_create_def Let_def split: option.splits if_splits)
  from assms(1) have "\<forall>t\<in>set (tasks db). task_id t < next_oid db"
    by (simp add: wf_db_def list_all_iff)
  then have "next_oid db \<notin> task_id ` set (tasks db)" by auto
  with assms(1) show ?thesis
    by (auto simp: wf_db_def d list_all_iff)
qed

lemma post_task_wf: "wf_db db \<Longrightarrow> wf_db (fst (post_task env db u b))"
  by (auto simp: post_task_def Let_def split: option.splits prod.splits dest: Task_create_wf)

lemma update_wf:
  assumes "wf_db db"
  shows "wf_db (db\<lparr>tasks := update_first P (apply_update up c) (tasks db), now := n\<rparr>)"
proof -
  have ids: "map task_id (update_first P (apply_update up c) (tasks db)) = map task_id (tasks db)"
    by (rule map_update_first) (simp add: apply_update_def)
  have "list_all (\<lambda>t. task_id t < next_oid db) (update_first P (apply_update up c) (tasks db))"
    using assms by (intro list_all_update_first) (simp_all add: wf_db_def apply_update_def)
  with assms show ?thesis by (simp add: wf_db_def ids)
qed

lemma put_task_wf: "wf_db db \<Longrightarrow> wf_db (fst (put_task env db u idp b))"
  by (simp add: put_task_def Let_def update_wf split: id_param.splits option.splits)

lemma delete_task_wf: "wf_db db \<Longrightarrow> wf_db (fst (delete_task db u idp))"
  by (simp add: wf_db_def delete_task_def distinct_map_delete_first list_all_delete_first
           split: id_param.splits option.splits)

text \<open>
  What the example of C1 shows holds for every task and every target: an update the
  owner sends with a \<open>user\<close> key that passes validation makes that user the owner.
\<close>

lemma put_task_sets_user:
  assumes "find (owned_by u i) (tasks db) = Some t"
    and "validate_update env b = []"
    and "cast_body (sanitize_body env b) = Some up"
    and "schemaValidateUpdate env up"
    and "b_user b = Some v"
  shows "snd (put_task env db u (WellFormed i) b) = Respond 200 (TaskPayload (apply_update up (now db) t))"
    and "user (apply_update up (now db) t) = v"
proof -
  show "snd (put_task env db u (WellFormed i) b) = Respond 200 (TaskPayload (apply_update up (now db) t))"
    using assms by (simp add: put_task_def)
  have "u_user up = Some v"
    using cast_body_Some(4) [OF assms(3)] assms(5) by (simp add: sanitize_body_def)
  then show "user (apply_update up (now db) t) = v"
    by (simp add: apply_update_def)
qed


end
